theory Spec2Isabelle
  imports Main "HOL-Library.Word"
begin

unbundle bit_operations_syntax

section \<open>Data model of \<open>model/span.go\<close>\<close>

text \<open>\<open>type Flags uint32\<close> and \<open>type SpanID uint64\<close>.\<close>

type_synonym Flags = "32 word"

type_synonym SpanID = "64 word"

text \<open>
  Modelled from the spec: the declaration of \<open>TraceID\<close> is generated code that is not in
  \<open>span.go\<close> (which keeps the two fields \<open>Low uint64\<close> and \<open>High uint64\<close> in a comment
  and uses them as \<open>t.High\<close>, \<open>t.Low\<close>). The spec: a pair of unsigned 64-bit integers
  \<open>high\<close> and \<open>low\<close>, with structural equality.
\<close>

record TraceID =
  Low :: "64 word"
  High :: "64 word"

subsection \<open>Flags\<close>

definition sampledFlag :: Flags where
  "sampledFlag = 1"

definition debugFlag :: Flags where
  "debugFlag = 2"

text \<open>\<open>func (f *Flags) setFlags(bit Flags) { *f = *f | bit }\<close>: the new value of \<open>*f\<close>.\<close>

definition setFlags :: "Flags \<Rightarrow> Flags \<Rightarrow> Flags" where
  "setFlags f bit' = f OR bit'"

definition SetSampled :: "Flags \<Rightarrow> Flags" where
  "SetSampled f = setFlags f sampledFlag"

definition SetDebug :: "Flags \<Rightarrow> Flags" where
  "SetDebug f = setFlags f debugFlag"

definition checkFlags :: "Flags \<Rightarrow> Flags \<Rightarrow> bool" where
  "checkFlags f bit' \<longleftrightarrow> f AND bit' = bit'"

definition IsSampled :: "Flags \<Rightarrow> bool" where
  "IsSampled f = checkFlags f sampledFlag"

definition IsDebug :: "Flags \<Rightarrow> bool" where
  "IsDebug f = checkFlags f debugFlag"

subsection \<open>Errors\<close>

text \<open>
  Every failure of the source is an \<open>error\<close> value. \<open>Errorf\<close> carries the message built by
  \<open>fmt.Errorf\<close>; \<open>NumError\<close> is \<open>*strconv.NumError\<close> with its fields \<open>Func\<close>, \<open>Num\<close> (the
  string that failed to parse) and \<open>Err\<close>.
\<close>

datatype num_err = ErrSyntax | ErrRange

datatype error = Errorf string | NumError string string num_err

subsection \<open>The library calls: \<open>fmt.Sprintf\<close> with \<open>%x\<close>, \<open>%016x\<close>, and \<open>strconv.ParseUint\<close>\<close>

text \<open>
  \<open>fmt\<close> writes an unsigned integer in base 16 from the least significant digit backwards
  into a buffer: \<open>for u >= 16 { buf[i] = digits[u&0xF]; u >>= 4 }; buf[i] = digits[u]\<close>, and
  then, for a zero-padded width, \<open>for prec > len(buf)-i { buf[i] = '0' }\<close>. The digits are
  the lowercase table.
\<close>

definition ldigits :: string where
  "ldigits = ''0123456789abcdefx''"

function fmtInteger_digits :: "64 word \<Rightarrow> string \<Rightarrow> string" where
  "fmtInteger_digits u buf =
     (if 16 \<le> u then fmtInteger_digits (drop_bit 4 u) (ldigits ! unat (u AND 0xF) # buf)
      else ldigits ! unat u # buf)"
  by pat_completeness auto
termination
proof (relation "measure (\<lambda>(u, buf). unat u)")
  show "wf (measure (\<lambda>(u :: 64 word, buf :: string). unat u))"
    by simp
next
  fix u :: "64 word" and buf :: string
  assume "16 \<le> u"
  then have "16 \<le> unat u"
    by (simp add: word_le_nat_alt)
  then have "unat u div 16 < unat u"
    by simp
  then have "unat (drop_bit 4 u) < unat u"
    by (simp add: drop_bit_eq_div unat_div)
  then show "((drop_bit 4 u, ldigits ! unat (u AND 0xF) # buf), (u, buf))
      \<in> measure (\<lambda>(u, buf). unat u)"
    by simp
qed

function fmtInteger_zeros :: "nat \<Rightarrow> string \<Rightarrow> string" where
  "fmtInteger_zeros prec buf =
     (if length buf < prec then fmtInteger_zeros prec (CHR ''0'' # buf) else buf)"
  by pat_completeness auto
termination
  by (relation "measure (\<lambda>(prec, buf). prec - length buf)") auto

definition fmtInteger :: "nat \<Rightarrow> 64 word \<Rightarrow> string" where
  "fmtInteger prec u = fmtInteger_zeros prec (fmtInteger_digits u [])"

text \<open>\<open>fmt.Sprintf("%x", u)\<close> and \<open>fmt.Sprintf("%016x", u)\<close>.\<close>

definition Sprintf_x :: "64 word \<Rightarrow> string" where
  "Sprintf_x u = fmtInteger 0 u"

definition Sprintf_016x :: "64 word \<Rightarrow> string" where
  "Sprintf_016x u = fmtInteger 16 u"

text \<open>
  \<open>strconv.ParseUint(s, 16, 64)\<close>. The empty string is a syntax error. Each byte \<open>c\<close> gives
  a digit \<open>d\<close>: \<open>c - '0'\<close> for \<open>'0' <= c <= '9'\<close>, \<open>lower(c) - 'a' + 10\<close> for
  \<open>'a' <= lower(c) <= 'z'\<close> with \<open>lower(c) = c | ('x' - 'X')\<close>, a syntax error otherwise and
  when \<open>d >= base\<close>. The value is accumulated in a \<open>uint64\<close>; \<open>n >= cutoff\<close> (with
  \<open>cutoff = maxUint64/16 + 1\<close>) and a wrapped or too large \<open>n*16 + d\<close> are range errors.
\<close>

definition lower :: "8 word \<Rightarrow> 8 word" where
  "lower c = c OR 0x20"

definition digit_of_byte :: "8 word \<Rightarrow> 8 word option" where
  "digit_of_byte c =
     (if 0x30 \<le> c \<and> c \<le> 0x39 then Some (c - 0x30)
      else if 0x61 \<le> lower c \<and> lower c \<le> 0x7A then Some (lower c - 0x61 + 10)
      else None)"

definition cutoff :: "64 word" where
  "cutoff = 0xFFFFFFFFFFFFFFFF div 16 + 1"

definition maxVal :: "64 word" where
  "maxVal = push_bit 64 1 - 1"

fun ParseUint_loop :: "64 word \<Rightarrow> string \<Rightarrow> num_err + 64 word" where
  "ParseUint_loop n [] = Inr n"
| "ParseUint_loop n (c # cs) =
     (case digit_of_byte (of_char c) of
        None \<Rightarrow> Inl ErrSyntax
      | Some d \<Rightarrow>
          if 16 \<le> d then Inl ErrSyntax
          else if cutoff \<le> n then Inl ErrRange
          else
            let n' = n * 16; n1 = n' + ucast d
            in if n1 < n' \<or> maxVal < n1 then Inl ErrRange else ParseUint_loop n1 cs)"

definition ParseUint :: "string \<Rightarrow> error + 64 word" where
  "ParseUint s =
     (if s = [] then Inl (NumError ''ParseUint'' s ErrSyntax)
      else case ParseUint_loop 0 s of
             Inl e \<Rightarrow> Inl (NumError ''ParseUint'' s e)
           | Inr n \<Rightarrow> Inr n)"

subsection \<open>TraceID\<close>

definition TraceID_String :: "TraceID \<Rightarrow> string" where
  "TraceID_String t =
     (if High t = 0 then Sprintf_x (Low t)
      else Sprintf_x (High t) @ Sprintf_016x (Low t))"

text \<open>
  \<open>TraceIDFromString\<close>: \<open>s[0:hiLen]\<close> is \<open>take hiLen s\<close> and \<open>s[hiLen:]\<close> is
  \<open>drop hiLen s\<close>; \<open>hiLen = len(s) - 16\<close> is computed only when \<open>len(s) > 16\<close>. The
  result is a sum: the zero \<open>TraceID{}\<close> that the source returns next to an error carries
  no information and is left out.
\<close>

definition TraceIDFromString :: "string \<Rightarrow> error + TraceID" where
  "TraceIDFromString s =
     (if 32 < length s then
        Inl (Errorf (''TraceID cannot be longer than 32 hex characters: '' @ s))
      else if 16 < length s then
        (let hiLen = length s - 16 in
         case ParseUint (take hiLen s) of
           Inl err \<Rightarrow> Inl err
         | Inr hi \<Rightarrow>
             (case ParseUint (drop hiLen s) of
                Inl err \<Rightarrow> Inl err
              | Inr lo \<Rightarrow> Inr \<lparr>Low = lo, High = hi\<rparr>))
      else
        (case ParseUint s of
           Inl err \<Rightarrow> Inl err
         | Inr lo \<Rightarrow> Inr \<lparr>Low = lo, High = 0\<rparr>))"

definition TraceID_MarshalJSONPB :: "TraceID \<Rightarrow> error + string" where
  "TraceID_MarshalJSONPB t = Inr ([CHR 0x22] @ TraceID_String t @ [CHR 0x22])"

text \<open>
  \<open>UnmarshalJSONPB\<close> has a pointer receiver: the model takes the value \<open>*t\<close> held before
  the call and returns the value held after it together with the returned error
  (\<open>None\<close> for \<open>nil\<close>). \<open>b[0]\<close> and \<open>b[len(b)-1]\<close> are read only behind the length check;
  \<open>b[1 : len(b)-1]\<close> is \<open>take (len(b)-1-1) (drop 1 b)\<close>.
\<close>

definition TraceID_UnmarshalJSONPB :: "TraceID \<Rightarrow> string \<Rightarrow> TraceID \<times> error option" where
  "TraceID_UnmarshalJSONPB t b =
     (if length b < 3 then
        (t, Some (Errorf (''TraceID JSON string cannot be shorter than 3 chars: '' @ b)))
      else if b ! 0 \<noteq> CHR 0x22 \<or> b ! (length b - 1) \<noteq> CHR 0x22 then
        (t, Some (Errorf (''TraceID JSON string must be enclosed in quotes: '' @ b)))
      else
        (case TraceIDFromString (take (length b - 1 - 1) (drop 1 b)) of
           Inl err \<Rightarrow> (t, Some err)
         | Inr q \<Rightarrow> (q, None)))"

definition TraceID_MarshalText :: "TraceID \<Rightarrow> error + string" where
  "TraceID_MarshalText t =
     Inl (Errorf ''unsupported method TraceID.MarshalText; please use github.com/gogo/protobuf/jsonpb for marshalling'')"

definition TraceID_UnmarshalText :: "TraceID \<Rightarrow> string \<Rightarrow> TraceID \<times> error option" where
  "TraceID_UnmarshalText t text' =
     (t, Some (Errorf ''unsupported method TraceID.UnmarshalText; please use github.com/gogo/protobuf/jsonpb for marshalling''))"

subsection \<open>SpanID\<close>

definition SpanID_String :: "SpanID \<Rightarrow> string" where
  "SpanID_String s = Sprintf_x s"

definition SpanIDFromString :: "string \<Rightarrow> error + SpanID" where
  "SpanIDFromString s =
     (if 16 < length s then
        Inl (Errorf (''SpanID cannot be longer than 16 hex characters: '' @ s))
      else
        (case ParseUint s of
           Inl err \<Rightarrow> Inl err
         | Inr id' \<Rightarrow> Inr id'))"

definition SpanID_MarshalJSONPB :: "SpanID \<Rightarrow> error + string" where
  "SpanID_MarshalJSONPB s = Inr ([CHR 0x22] @ SpanID_String s @ [CHR 0x22])"

definition SpanID_MarshalText :: "SpanID \<Rightarrow> error + string" where
  "SpanID_MarshalText s = Inr (SpanID_String s)"

definition SpanID_UnmarshalJSONPB :: "SpanID \<Rightarrow> string \<Rightarrow> SpanID \<times> error option" where
  "SpanID_UnmarshalJSONPB s b =
     (if length b < 3 then
        (s, Some (Errorf (''SpanID JSON string cannot be shorter than 3 chars: '' @ b)))
      else if b ! 0 \<noteq> CHR 0x22 \<or> b ! (length b - 1) \<noteq> CHR 0x22 then
        (s, Some (Errorf (''SpanID JSON string must be enclosed in quotes: '' @ b)))
      else
        (case SpanIDFromString (take (length b - 1 - 1) (drop 1 b)) of
           Inl err \<Rightarrow> (s, Some err)
         | Inr q \<Rightarrow> (q, None)))"

subsection \<open>Span references and the parent link\<close>

text \<open>
  Modelled from the spec: the declaration of \<open>SpanRefType\<close> is not in \<open>span.go\<close>. The
  spec gives an integer-backed enumeration in which every integer is a valid value and
  only two values are named.
\<close>

type_synonym SpanRefType = int

text \<open>Modelled from the spec: \<open>ChildOf = 0\<close>, declared with \<open>SpanRefType\<close>.\<close>

definition ChildOf :: SpanRefType where
  "ChildOf = 0"

text \<open>Modelled from the spec: \<open>FollowsFrom = 1\<close>, declared with \<open>SpanRefType\<close>.\<close>

definition FollowsFrom :: SpanRefType where
  "FollowsFrom = 1"

text \<open>
  Modelled from the spec: the declaration of \<open>SpanRef\<close> is not in \<open>span.go\<close>, which reads
  and writes its fields \<open>TraceID\<close>, \<open>SpanID\<close> and \<open>RefType\<close>. The spec:
  \<open>{traceID: TraceID, spanID: SpanID, refType: SpanRefType}\<close>.
\<close>

record SpanRef =
  ref_TraceID :: TraceID
  ref_SpanID :: SpanID
  ref_RefType :: SpanRefType

text \<open>
  Modelled from the spec: the declaration of \<open>Span\<close> is generated code that is not in
  \<open>span.go\<close> (which keeps an older field list in a comment). These are the fields that the
  operations on references and flags read or write; start time, duration, tags, logs,
  process and warnings are touched by none of them.
\<close>

record Span =
  span_TraceID :: TraceID
  span_SpanID :: SpanID
  span_OperationName :: string
  span_References :: "SpanRef list"
  span_Flags :: Flags

text \<open>
  Modelled from the spec: \<open>NewChildOfRef\<close> is not in \<open>span.go\<close>; the spec gives it as the
  constructor returning \<open>{traceID, spanID, ChildOf}\<close>.
\<close>

definition NewChildOfRef :: "TraceID \<Rightarrow> SpanID \<Rightarrow> SpanRef" where
  "NewChildOfRef traceID spanID =
     \<lparr>ref_TraceID = traceID, ref_SpanID = spanID, ref_RefType = ChildOf\<rparr>"

text \<open>
  Modelled from the spec: \<open>MaybeAddParentSpanID\<close> is called by \<open>ReplaceParentID\<close> and by the
  tests, and its body is not in \<open>span.go\<close>. The spec: if \<open>parentID\<close> is the zero value,
  return \<open>references\<close> unchanged; if \<open>references\<close> already contains an entry with
  \<open>traceID == traceID\<close> and \<open>refType == ChildOf\<close>, return \<open>references\<close> unchanged; otherwise
  return a new sequence with a freshly constructed \<open>{traceID, parentID, ChildOf}\<close> reference
  prepended, followed by the original entries in their original order.
\<close>

definition MaybeAddParentSpanID :: "TraceID \<Rightarrow> SpanID \<Rightarrow> SpanRef list \<Rightarrow> SpanRef list" where
  "MaybeAddParentSpanID traceID parentID references =
     (if parentID = 0 then references
      else if list_ex (\<lambda>r. ref_TraceID r = traceID \<and> ref_RefType r = ChildOf) references
        then references
      else NewChildOfRef traceID parentID # references)"

text \<open>
  \<open>ParentSpanID\<close>: the loop \<open>for i := range s.References\<close>, from index \<open>i\<close> on. The
  receiver is only read.
\<close>

function ParentSpanID_loop :: "Span \<Rightarrow> nat \<Rightarrow> SpanID" where
  "ParentSpanID_loop s i =
     (if i < length (span_References s) then
        (let ref = span_References s ! i in
         if ref_TraceID ref = span_TraceID s \<and> ref_RefType ref = ChildOf then ref_SpanID ref
         else ParentSpanID_loop s (i + 1))
      else 0)"
  by pat_completeness auto
termination
  by (relation "measure (\<lambda>(s, i). length (span_References s) - i)") auto

definition ParentSpanID :: "Span \<Rightarrow> SpanID" where
  "ParentSpanID s = ParentSpanID_loop s 0"

text \<open>
  \<open>ReplaceParentID\<close> mutates the span behind its pointer receiver: the model returns the
  span after the call. The loop returns \<open>Some\<close> of the mutated span when it hits the
  \<open>return\<close> inside the loop, and \<open>None\<close> when it runs off the end of the references.
\<close>

function ReplaceParentID_loop :: "Span \<Rightarrow> SpanID \<Rightarrow> SpanID \<Rightarrow> nat \<Rightarrow> Span option" where
  "ReplaceParentID_loop s oldParentID newParentID i =
     (if i < length (span_References s) then
        (if ref_SpanID (span_References s ! i) = oldParentID
            \<and> ref_TraceID (span_References s ! i) = span_TraceID s
         then Some (s\<lparr>span_References :=
                 (span_References s)[i := (span_References s ! i)\<lparr>ref_SpanID := newParentID\<rparr>]\<rparr>)
         else ReplaceParentID_loop s oldParentID newParentID (i + 1))
      else None)"
  by pat_completeness auto
termination
  by (relation "measure (\<lambda>(s, oldParentID, newParentID, i). length (span_References s) - i)")
    auto

definition ReplaceParentID :: "Span \<Rightarrow> SpanID \<Rightarrow> Span" where
  "ReplaceParentID s newParentID =
     (let oldParentID = ParentSpanID s in
      case ReplaceParentID_loop s oldParentID newParentID 0 of
        Some s' \<Rightarrow> s'
      | None \<Rightarrow>
          s\<lparr>span_References :=
              MaybeAddParentSpanID (span_TraceID s) newParentID (span_References s)\<rparr>)"

section \<open>Specification-level notions\<close>

text \<open>
  The spec speaks of hexadecimal renderings, of valid hexadecimal strings and of the value
  they denote. These definitions follow the spec's words and are independent of the
  library models above; the theorems relate the two.
\<close>

definition hex_digit_value :: "char \<Rightarrow> nat option" where
  "hex_digit_value c =
     map_of (zip ''0123456789abcdef'' [0..<16] @ zip ''ABCDEF'' [10..<16]) c"

definition is_hex :: "string \<Rightarrow> bool" where
  "is_hex s \<longleftrightarrow> s \<noteq> [] \<and> list_all (\<lambda>c. hex_digit_value c \<noteq> None) s"

definition hex_value_from :: "nat \<Rightarrow> string \<Rightarrow> nat" where
  "hex_value_from n s =
     foldl (\<lambda>n c. 16 * n + (case hex_digit_value c of Some d \<Rightarrow> d | None \<Rightarrow> 0)) n s"

definition hex_value :: "string \<Rightarrow> nat" where
  "hex_value s = hex_value_from 0 s"

fun lower_hex :: "nat \<Rightarrow> string" where
  "lower_hex n =
     (if n < 16 then [''0123456789abcdef'' ! n]
      else lower_hex (n div 16) @ [''0123456789abcdef'' ! (n mod 16)])"

definition zero_pad :: "nat \<Rightarrow> string \<Rightarrow> string" where
  "zero_pad w s = replicate (w - length s) (CHR ''0'') @ s"

text \<open>The spec's parent link: a reference to the span's own trace of type \<open>ChildOf\<close>.\<close>

definition is_parent_link :: "Span \<Rightarrow> SpanRef \<Rightarrow> bool" where
  "is_parent_link s r \<longleftrightarrow> ref_TraceID r = span_TraceID s \<and> ref_RefType r = ChildOf"

section \<open>Flags: each setter touches one bit\<close>

lemma bit_sampledFlag: "bit sampledFlag n \<longleftrightarrow> n = 0"
  by (simp add: sampledFlag_def bit_1_iff)

lemma bit_debugFlag: "bit debugFlag n \<longleftrightarrow> n = 1"
proof -
  have "debugFlag = push_bit 1 1" by (simp add: debugFlag_def)
  then have "bit debugFlag n \<longleftrightarrow> bit (push_bit 1 (1::32 word)) n" by simp
  also have "\<dots> \<longleftrightarrow> n = 1"
    by (simp only: bit_push_bit_iff bit_1_iff) auto
  finally show ?thesis .
qed

lemma checkFlags_sampled: "checkFlags f sampledFlag \<longleftrightarrow> bit f 0"
proof
  assume "checkFlags f sampledFlag"
  then have "bit (f AND sampledFlag) 0 = bit sampledFlag 0" by (simp add: checkFlags_def)
  then show "bit f 0" by (simp add: bit_and_iff bit_sampledFlag)
next
  assume "bit f 0"
  then have "f AND sampledFlag = sampledFlag"
    by (intro bit_word_eqI) (auto simp add: bit_and_iff bit_sampledFlag)
  then show "checkFlags f sampledFlag" by (simp add: checkFlags_def)
qed

lemma checkFlags_debug: "checkFlags f debugFlag \<longleftrightarrow> bit f 1"
proof
  assume "checkFlags f debugFlag"
  then have "bit (f AND debugFlag) 1 = bit debugFlag 1" by (simp add: checkFlags_def)
  then show "bit f 1" by (simp add: bit_and_iff bit_debugFlag)
next
  assume "bit f 1"
  then have "f AND debugFlag = debugFlag"
    by (intro bit_word_eqI) (auto simp add: bit_and_iff bit_debugFlag)
  then show "checkFlags f debugFlag" by (simp add: checkFlags_def)
qed

text \<open>
  Claim C9. For every flags value, \<open>SetSampled\<close> sets bit 0 and \<open>SetDebug\<close> sets bit 1, and
  every other bit keeps the value it had; \<open>IsSampled\<close> and \<open>IsDebug\<close> hold exactly when
  bit 0, respectively bit 1, is set.
\<close>

theorem Flags_set_and_check:
  "bit (SetSampled f) n = (n = 0 \<or> bit f n)
   \<and> bit (SetDebug f) n = (n = 1 \<or> bit f n)
   \<and> IsSampled f = bit f 0
   \<and> IsDebug f = bit f 1"
  by (simp add: SetSampled_def SetDebug_def setFlags_def IsSampled_def IsDebug_def
      bit_or_iff bit_sampledFlag bit_debugFlag checkFlags_sampled checkFlags_debug
      disj_commute)

section \<open>Parent derivation and parent replacement\<close>

declare ParentSpanID_loop.simps [simp del] ReplaceParentID_loop.simps [simp del]

lemma ParentSpanID_loop_find:
  "ParentSpanID_loop s i =
     (case find (is_parent_link s) (drop i (span_References s)) of
        Some r \<Rightarrow> ref_SpanID r | None \<Rightarrow> 0)"
proof (induction s i rule: ParentSpanID_loop.induct)
  case (1 s i)
  show ?case
  proof (cases "i < length (span_References s)")
    case False
    then show ?thesis
      by (subst ParentSpanID_loop.simps) simp
  next
    case True
    then have d: "drop i (span_References s) = span_References s ! i # drop (Suc i) (span_References s)"
      by (simp add: Cons_nth_drop_Suc)
    let ?ref = "span_References s ! i"
    show ?thesis
    proof (cases "is_parent_link s ?ref")
      case True
      then have c: "ref_TraceID ?ref = span_TraceID s \<and> ref_RefType ?ref = ChildOf"
        by (simp add: is_parent_link_def)
      have "ParentSpanID_loop s i = ref_SpanID ?ref"
        using \<open>i < length (span_References s)\<close> c
        by (subst ParentSpanID_loop.simps) (simp add: Let_def)
      with True show ?thesis
        by (simp add: d)
    next
      case False
      then have c: "\<not> (ref_TraceID ?ref = span_TraceID s \<and> ref_RefType ?ref = ChildOf)"
        by (simp add: is_parent_link_def)
      have "ParentSpanID_loop s i = ParentSpanID_loop s (i + 1)"
        using \<open>i < length (span_References s)\<close> c
        by (subst ParentSpanID_loop.simps) (auto simp add: Let_def)
      also have "\<dots> = (case find (is_parent_link s) (drop (i + 1) (span_References s)) of
          Some r \<Rightarrow> ref_SpanID r | None \<Rightarrow> 0)"
        using "1.IH" [OF \<open>i < length (span_References s)\<close> refl c] .
      finally show ?thesis
        using False by (simp add: d)
    qed
  qed
qed

lemma ParentSpanID_find:
  "ParentSpanID s =
     (case find (is_parent_link s) (span_References s) of
        Some r \<Rightarrow> ref_SpanID r | None \<Rightarrow> 0)"
  by (simp add: ParentSpanID_def ParentSpanID_loop_find)

lemma find_append_first:
  "\<forall>x\<in>set pre. \<not> P x \<Longrightarrow> P r \<Longrightarrow> find P (pre @ r # post) = Some r"
  by (induction pre) auto

lemma find_none: "\<forall>x\<in>set xs. \<not> P x \<Longrightarrow> find P xs = None"
  by (induction xs) auto

lemma ParentSpanID_no_link:
  "\<forall>r\<in>set (span_References s). \<not> is_parent_link s r \<Longrightarrow> ParentSpanID s = 0"
  by (simp add: ParentSpanID_find find_none)

lemma ParentSpanID_head_link:
  "span_References s = r # rest \<Longrightarrow> is_parent_link s r \<Longrightarrow> ParentSpanID s = ref_SpanID r"
  by (simp add: ParentSpanID_find)

lemma ReplaceParentID_loop_found:
  assumes "i \<le> k" and "k < length (span_References s)"
    and "ref_SpanID (span_References s ! k) = old"
    and "ref_TraceID (span_References s ! k) = span_TraceID s"
    and "\<forall>j. i \<le> j \<and> j < k \<longrightarrow>
           \<not> (ref_SpanID (span_References s ! j) = old
              \<and> ref_TraceID (span_References s ! j) = span_TraceID s)"
  shows "ReplaceParentID_loop s old new i =
     Some (s\<lparr>span_References :=
       (span_References s)[k := (span_References s ! k)\<lparr>ref_SpanID := new\<rparr>]\<rparr>)"
  using assms
proof (induction s old new i rule: ReplaceParentID_loop.induct)
  case (1 s old new i)
  from "1.prems" have il: "i < length (span_References s)"
    by simp
  show ?case
  proof (cases "i = k")
    case True
    with "1.prems" show ?thesis
      by (subst ReplaceParentID_loop.simps) simp
  next
    case False
    with "1.prems" have lt: "i < k"
      by simp
    with "1.prems" have nm: "\<not> (ref_SpanID (span_References s ! i) = old
        \<and> ref_TraceID (span_References s ! i) = span_TraceID s)"
      by simp
    have "ReplaceParentID_loop s old new i = ReplaceParentID_loop s old new (i + 1)"
      using il nm by (subst ReplaceParentID_loop.simps) auto
    also have "\<dots> = Some (s\<lparr>span_References :=
        (span_References s)[k := (span_References s ! k)\<lparr>ref_SpanID := new\<rparr>]\<rparr>)"
      using "1.prems" lt by (intro "1.IH" [OF il nm]) auto
    finally show ?thesis .
  qed
qed

lemma ReplaceParentID_loop_not_found:
  assumes "\<forall>j. i \<le> j \<and> j < length (span_References s) \<longrightarrow>
           \<not> (ref_SpanID (span_References s ! j) = old
              \<and> ref_TraceID (span_References s ! j) = span_TraceID s)"
  shows "ReplaceParentID_loop s old new i = None"
  using assms
proof (induction s old new i rule: ReplaceParentID_loop.induct)
  case (1 s old new i)
  show ?case
  proof (cases "i < length (span_References s)")
    case False
    then show ?thesis
      by (subst ReplaceParentID_loop.simps) simp
  next
    case True
    with "1.prems" have nm: "\<not> (ref_SpanID (span_References s ! i) = old
        \<and> ref_TraceID (span_References s ! i) = span_TraceID s)"
      by simp
    have "ReplaceParentID_loop s old new i = ReplaceParentID_loop s old new (i + 1)"
      using True nm by (subst ReplaceParentID_loop.simps) auto
    also have "\<dots> = None"
      using "1.prems" by (intro "1.IH" [OF True nm]) auto
    finally show ?thesis .
  qed
qed

lemma ReplaceParentID_found:
  assumes "k < length (span_References s)"
    and "ref_SpanID (span_References s ! k) = ParentSpanID s"
    and "ref_TraceID (span_References s ! k) = span_TraceID s"
    and "\<forall>j<k. \<not> (ref_SpanID (span_References s ! j) = ParentSpanID s
              \<and> ref_TraceID (span_References s ! j) = span_TraceID s)"
  shows "ReplaceParentID s new =
     s\<lparr>span_References :=
       (span_References s)[k := (span_References s ! k)\<lparr>ref_SpanID := new\<rparr>]\<rparr>"
proof -
  have "ReplaceParentID_loop s (ParentSpanID s) new 0 =
     Some (s\<lparr>span_References :=
       (span_References s)[k := (span_References s ! k)\<lparr>ref_SpanID := new\<rparr>]\<rparr>)"
    using assms by (intro ReplaceParentID_loop_found) auto
  then show ?thesis
    by (simp add: ReplaceParentID_def Let_def)
qed

lemma ReplaceParentID_not_found:
  assumes "\<forall>r\<in>set (span_References s).
      \<not> (ref_SpanID r = ParentSpanID s \<and> ref_TraceID r = span_TraceID s)"
  shows "ReplaceParentID s new =
     s\<lparr>span_References :=
       MaybeAddParentSpanID (span_TraceID s) new (span_References s)\<rparr>"
proof -
  have "ReplaceParentID_loop s (ParentSpanID s) new 0 = None"
    using assms by (intro ReplaceParentID_loop_not_found) auto
  then show ?thesis
    by (simp add: ReplaceParentID_def Let_def)
qed

text \<open>
  Claim C4. \<open>ParentSpanID\<close> only reads the span (the model returns nothing but the id). It
  returns the zero id when no reference is a parent link (own trace id and type
  \<open>ChildOf\<close>); and when the references are \<open>pre @ r # post\<close> with no parent link in \<open>pre\<close>
  and \<open>r\<close> a parent link, it returns the span id of \<open>r\<close>, whatever \<open>post\<close> holds.
\<close>

theorem ParentSpanID_first_parent_link:
  "((\<forall>r\<in>set (span_References s). \<not> is_parent_link s r) \<longrightarrow> ParentSpanID s = 0)
   \<and> (span_References s = pre @ r # post \<and> (\<forall>x\<in>set pre. \<not> is_parent_link s x)
        \<and> is_parent_link s r \<longrightarrow> ParentSpanID s = ref_SpanID r)"
  by (auto simp add: ParentSpanID_find find_none find_append_first)

theorem ParentSpanID_first_parent_link_witness:
  "ParentSpanID \<lparr>span_TraceID = \<lparr>Low = 1, High = 0\<rparr>, span_SpanID = 5,
       span_OperationName = ''op'',
       span_References = [\<lparr>ref_TraceID = \<lparr>Low = 1, High = 0\<rparr>, ref_SpanID = 9,
         ref_RefType = FollowsFrom\<rparr>], span_Flags = 0\<rparr> = 0
   \<and> ParentSpanID \<lparr>span_TraceID = \<lparr>Low = 1, High = 0\<rparr>, span_SpanID = 5,
       span_OperationName = ''op'',
       span_References =
         [\<lparr>ref_TraceID = \<lparr>Low = 2, High = 0\<rparr>, ref_SpanID = 9, ref_RefType = ChildOf\<rparr>,
          \<lparr>ref_TraceID = \<lparr>Low = 1, High = 0\<rparr>, ref_SpanID = 123, ref_RefType = ChildOf\<rparr>,
          \<lparr>ref_TraceID = \<lparr>Low = 1, High = 0\<rparr>, ref_SpanID = 456, ref_RefType = ChildOf\<rparr>],
       span_Flags = 0\<rparr> = 123"
proof -
  let ?t = "\<lparr>Low = 1, High = 0\<rparr> :: TraceID"
  let ?f = "\<lparr>ref_TraceID = ?t, ref_SpanID = 9, ref_RefType = FollowsFrom\<rparr>"
  let ?s1 = "\<lparr>span_TraceID = ?t, span_SpanID = 5, span_OperationName = ''op'',
       span_References = [?f], span_Flags = 0\<rparr>"
  let ?a = "\<lparr>ref_TraceID = \<lparr>Low = 2, High = 0\<rparr>, ref_SpanID = 9, ref_RefType = ChildOf\<rparr>"
  let ?b = "\<lparr>ref_TraceID = ?t, ref_SpanID = 123, ref_RefType = ChildOf\<rparr>"
  let ?c = "\<lparr>ref_TraceID = ?t, ref_SpanID = 456, ref_RefType = ChildOf\<rparr>"
  let ?s2 = "\<lparr>span_TraceID = ?t, span_SpanID = 5, span_OperationName = ''op'',
       span_References = [?a, ?b, ?c], span_Flags = 0\<rparr>"
  have h1: "\<forall>r\<in>set (span_References ?s1). \<not> is_parent_link ?s1 r"
    by (simp add: is_parent_link_def ChildOf_def FollowsFrom_def)
  have h2: "span_References ?s2 = [?a] @ ?b # [?c] \<and> (\<forall>x\<in>set [?a]. \<not> is_parent_link ?s2 x)
        \<and> is_parent_link ?s2 ?b"
    by (simp add: is_parent_link_def)
  from ParentSpanID_first_parent_link [of ?s1, THEN conjunct1, THEN mp, OF h1]
    ParentSpanID_first_parent_link [of ?s2 "[?a]" ?b "[?c]", THEN conjunct2, THEN mp, OF h2]
  show ?thesis
    by simp
qed

text \<open>
  Claim C2. \<open>MaybeAddParentSpanID\<close> returns the references unchanged when the parent id is
  zero, and when some reference already has the given trace id and type \<open>ChildOf\<close>;
  otherwise it returns the new reference \<open>{traceID, parentID, ChildOf}\<close> followed by the
  original references in their order, and parent derivation on a span of that trace
  holding the result yields \<open>parentID\<close>.
\<close>

theorem MaybeAddParentSpanID_cases:
  "(parentID = 0 \<longrightarrow> MaybeAddParentSpanID traceID parentID refs = refs)
   \<and> ((\<exists>r\<in>set refs. ref_TraceID r = traceID \<and> ref_RefType r = ChildOf)
        \<longrightarrow> MaybeAddParentSpanID traceID parentID refs = refs)
   \<and> (parentID \<noteq> 0 \<and> \<not> (\<exists>r\<in>set refs. ref_TraceID r = traceID \<and> ref_RefType r = ChildOf)
        \<longrightarrow> MaybeAddParentSpanID traceID parentID refs
              = \<lparr>ref_TraceID = traceID, ref_SpanID = parentID, ref_RefType = ChildOf\<rparr> # refs
          \<and> (span_TraceID s = traceID \<longrightarrow>
               ParentSpanID (s\<lparr>span_References :=
                 MaybeAddParentSpanID traceID parentID refs\<rparr>) = parentID))"
proof (intro conjI impI)
  assume "parentID = 0"
  then show "MaybeAddParentSpanID traceID parentID refs = refs"
    by (simp add: MaybeAddParentSpanID_def)
next
  assume "\<exists>r\<in>set refs. ref_TraceID r = traceID \<and> ref_RefType r = ChildOf"
  then show "MaybeAddParentSpanID traceID parentID refs = refs"
    by (simp add: MaybeAddParentSpanID_def list_ex_iff)
next
  assume a: "parentID \<noteq> 0
    \<and> \<not> (\<exists>r\<in>set refs. ref_TraceID r = traceID \<and> ref_RefType r = ChildOf)"
  then show e: "MaybeAddParentSpanID traceID parentID refs
      = \<lparr>ref_TraceID = traceID, ref_SpanID = parentID, ref_RefType = ChildOf\<rparr> # refs"
    by (simp add: MaybeAddParentSpanID_def list_ex_iff NewChildOfRef_def)
  assume t: "span_TraceID s = traceID"
  let ?r = "\<lparr>ref_TraceID = traceID, ref_SpanID = parentID, ref_RefType = ChildOf\<rparr>"
  let ?s = "s\<lparr>span_References := MaybeAddParentSpanID traceID parentID refs\<rparr>"
  have "span_References ?s = ?r # refs"
    by (simp add: e)
  moreover have "is_parent_link ?s ?r"
    by (simp add: is_parent_link_def t)
  ultimately have "ParentSpanID ?s = ref_SpanID ?r"
    by (rule ParentSpanID_head_link)
  then show "ParentSpanID ?s = parentID"
    by simp
qed

theorem MaybeAddParentSpanID_cases_witness:
  "MaybeAddParentSpanID \<lparr>Low = 1, High = 0\<rparr> 0
      [\<lparr>ref_TraceID = \<lparr>Low = 0, High = 42\<rparr>, ref_SpanID = 789, ref_RefType = ChildOf\<rparr>]
     = [\<lparr>ref_TraceID = \<lparr>Low = 0, High = 42\<rparr>, ref_SpanID = 789, ref_RefType = ChildOf\<rparr>]
   \<and> MaybeAddParentSpanID \<lparr>Low = 1, High = 0\<rparr> 123
      [\<lparr>ref_TraceID = \<lparr>Low = 1, High = 0\<rparr>, ref_SpanID = 55, ref_RefType = ChildOf\<rparr>]
     = [\<lparr>ref_TraceID = \<lparr>Low = 1, High = 0\<rparr>, ref_SpanID = 55, ref_RefType = ChildOf\<rparr>]
   \<and> MaybeAddParentSpanID \<lparr>Low = 1, High = 0\<rparr> 123
      [\<lparr>ref_TraceID = \<lparr>Low = 0, High = 42\<rparr>, ref_SpanID = 789, ref_RefType = ChildOf\<rparr>]
     = [\<lparr>ref_TraceID = \<lparr>Low = 1, High = 0\<rparr>, ref_SpanID = 123, ref_RefType = ChildOf\<rparr>,
        \<lparr>ref_TraceID = \<lparr>Low = 0, High = 42\<rparr>, ref_SpanID = 789, ref_RefType = ChildOf\<rparr>]
   \<and> ParentSpanID (\<lparr>span_TraceID = \<lparr>Low = 1, High = 0\<rparr>, span_SpanID = 5,
         span_OperationName = ''op'', span_References = [], span_Flags = 0\<rparr>
       \<lparr>span_References := MaybeAddParentSpanID \<lparr>Low = 1, High = 0\<rparr> 123
         [\<lparr>ref_TraceID = \<lparr>Low = 0, High = 42\<rparr>, ref_SpanID = 789,
           ref_RefType = ChildOf\<rparr>]\<rparr>) = 123"
proof -
  let ?t = "\<lparr>Low = 1, High = 0\<rparr> :: TraceID"
  let ?o = "\<lparr>ref_TraceID = \<lparr>Low = 0, High = 42\<rparr>, ref_SpanID = 789, ref_RefType = ChildOf\<rparr>"
  let ?p = "\<lparr>ref_TraceID = ?t, ref_SpanID = 55, ref_RefType = ChildOf\<rparr>"
  let ?s = "\<lparr>span_TraceID = ?t, span_SpanID = 5, span_OperationName = ''op'',
      span_References = [], span_Flags = 0\<rparr>"
  have h2: "\<exists>r\<in>set [?p]. ref_TraceID r = ?t \<and> ref_RefType r = ChildOf"
    by simp
  have h3: "(123 :: SpanID) \<noteq> 0
      \<and> \<not> (\<exists>r\<in>set [?o]. ref_TraceID r = ?t \<and> ref_RefType r = ChildOf)"
    by simp
  have h4: "span_TraceID ?s = ?t"
    by simp
  note c1 = MaybeAddParentSpanID_cases [where parentID = 0 and traceID = ?t and refs = "[?o]", THEN conjunct1, THEN mp, OF refl]
  note c2 = MaybeAddParentSpanID_cases [where parentID = 123 and traceID = ?t and refs = "[?p]", THEN conjunct2, THEN conjunct1,
      THEN mp, OF h2]
  note c3 = MaybeAddParentSpanID_cases [where parentID = 123 and traceID = ?t and refs = "[?o]" and s = ?s, THEN conjunct2, THEN conjunct2,
      THEN mp, OF h3]
  from c1 c2 c3 [THEN conjunct1] c3 [THEN conjunct2, THEN mp, OF h4]
  show ?thesis
    by simp
qed

text \<open>
  Claim C3. With \<open>oldParentID = ParentSpanID s\<close>: when \<open>k\<close> is the first index whose
  reference has span id \<open>oldParentID\<close> and the span's trace id, \<open>ReplaceParentID\<close> sets the
  span id of that reference to the new id, at the same position, with the same type and
  trace id, and changes no other reference and no other field; when no reference is such
  an entry, it stores \<open>MaybeAddParentSpanID (span_TraceID s) new (span_References s)\<close> as
  the references.
\<close>

theorem ReplaceParentID_in_place_or_add:
  "(k < length (span_References s)
      \<and> ref_SpanID (span_References s ! k) = ParentSpanID s
      \<and> ref_TraceID (span_References s ! k) = span_TraceID s
      \<and> (\<forall>j<k. \<not> (ref_SpanID (span_References s ! j) = ParentSpanID s
              \<and> ref_TraceID (span_References s ! j) = span_TraceID s))
    \<longrightarrow> ReplaceParentID s new =
          s\<lparr>span_References :=
            (span_References s)[k := (span_References s ! k)\<lparr>ref_SpanID := new\<rparr>]\<rparr>
        \<and> length (span_References (ReplaceParentID s new)) = length (span_References s)
        \<and> ref_SpanID (span_References (ReplaceParentID s new) ! k) = new
        \<and> ref_RefType (span_References (ReplaceParentID s new) ! k)
            = ref_RefType (span_References s ! k)
        \<and> ref_TraceID (span_References (ReplaceParentID s new) ! k)
            = ref_TraceID (span_References s ! k)
        \<and> (\<forall>j. j \<noteq> k \<longrightarrow>
              span_References (ReplaceParentID s new) ! j = span_References s ! j))
   \<and> ((\<forall>r\<in>set (span_References s).
          \<not> (ref_SpanID r = ParentSpanID s \<and> ref_TraceID r = span_TraceID s))
    \<longrightarrow> ReplaceParentID s new =
          s\<lparr>span_References :=
            MaybeAddParentSpanID (span_TraceID s) new (span_References s)\<rparr>)"
proof (intro conjI impI)
  assume a: "k < length (span_References s)
      \<and> ref_SpanID (span_References s ! k) = ParentSpanID s
      \<and> ref_TraceID (span_References s ! k) = span_TraceID s
      \<and> (\<forall>j<k. \<not> (ref_SpanID (span_References s ! j) = ParentSpanID s
              \<and> ref_TraceID (span_References s ! j) = span_TraceID s))"
  then have e: "ReplaceParentID s new =
          s\<lparr>span_References :=
            (span_References s)[k := (span_References s ! k)\<lparr>ref_SpanID := new\<rparr>]\<rparr>"
    by (intro ReplaceParentID_found) auto
  show "ReplaceParentID s new =
          s\<lparr>span_References :=
            (span_References s)[k := (span_References s ! k)\<lparr>ref_SpanID := new\<rparr>]\<rparr>"
    by (rule e)
  show "length (span_References (ReplaceParentID s new)) = length (span_References s)"
    by (simp add: e)
  show "ref_SpanID (span_References (ReplaceParentID s new) ! k) = new"
    using a by (simp add: e)
  show "ref_RefType (span_References (ReplaceParentID s new) ! k)
            = ref_RefType (span_References s ! k)"
    using a by (simp add: e)
  show "ref_TraceID (span_References (ReplaceParentID s new) ! k)
            = ref_TraceID (span_References s ! k)"
    using a by (simp add: e)
  show "\<forall>j. j \<noteq> k \<longrightarrow>
              span_References (ReplaceParentID s new) ! j = span_References s ! j"
    by (simp add: e)
next
  assume "\<forall>r\<in>set (span_References s).
          \<not> (ref_SpanID r = ParentSpanID s \<and> ref_TraceID r = span_TraceID s)"
  then show "ReplaceParentID s new =
          s\<lparr>span_References :=
            MaybeAddParentSpanID (span_TraceID s) new (span_References s)\<rparr>"
    by (rule ReplaceParentID_not_found)
qed

theorem ReplaceParentID_in_place_or_add_witness:
  "ReplaceParentID \<lparr>span_TraceID = \<lparr>Low = 1, High = 0\<rparr>, span_SpanID = 5,
       span_OperationName = ''op'',
       span_References =
         [\<lparr>ref_TraceID = \<lparr>Low = 2, High = 0\<rparr>, ref_SpanID = 123, ref_RefType = FollowsFrom\<rparr>,
          \<lparr>ref_TraceID = \<lparr>Low = 1, High = 0\<rparr>, ref_SpanID = 123, ref_RefType = ChildOf\<rparr>],
       span_Flags = 0\<rparr> 77
     = \<lparr>span_TraceID = \<lparr>Low = 1, High = 0\<rparr>, span_SpanID = 5,
       span_OperationName = ''op'',
       span_References =
         [\<lparr>ref_TraceID = \<lparr>Low = 2, High = 0\<rparr>, ref_SpanID = 123, ref_RefType = FollowsFrom\<rparr>,
          \<lparr>ref_TraceID = \<lparr>Low = 1, High = 0\<rparr>, ref_SpanID = 77, ref_RefType = ChildOf\<rparr>],
       span_Flags = 0\<rparr>
   \<and> ReplaceParentID \<lparr>span_TraceID = \<lparr>Low = 1, High = 0\<rparr>, span_SpanID = 5,
       span_OperationName = ''op'',
       span_References =
         [\<lparr>ref_TraceID = \<lparr>Low = 0, High = 42\<rparr>, ref_SpanID = 789, ref_RefType = ChildOf\<rparr>],
       span_Flags = 0\<rparr> 77
     = \<lparr>span_TraceID = \<lparr>Low = 1, High = 0\<rparr>, span_SpanID = 5,
       span_OperationName = ''op'',
       span_References =
         [\<lparr>ref_TraceID = \<lparr>Low = 1, High = 0\<rparr>, ref_SpanID = 77, ref_RefType = ChildOf\<rparr>,
          \<lparr>ref_TraceID = \<lparr>Low = 0, High = 42\<rparr>, ref_SpanID = 789, ref_RefType = ChildOf\<rparr>],
       span_Flags = 0\<rparr>"
proof -
  let ?t = "\<lparr>Low = 1, High = 0\<rparr> :: TraceID"
  let ?a = "\<lparr>ref_TraceID = \<lparr>Low = 2, High = 0\<rparr>, ref_SpanID = 123, ref_RefType = FollowsFrom\<rparr>"
  let ?b = "\<lparr>ref_TraceID = ?t, ref_SpanID = 123, ref_RefType = ChildOf\<rparr>"
  let ?o = "\<lparr>ref_TraceID = \<lparr>Low = 0, High = 42\<rparr>, ref_SpanID = 789, ref_RefType = ChildOf\<rparr>"
  let ?s1 = "\<lparr>span_TraceID = ?t, span_SpanID = 5, span_OperationName = ''op'',
      span_References = [?a, ?b], span_Flags = 0\<rparr>"
  let ?s2 = "\<lparr>span_TraceID = ?t, span_SpanID = 5, span_OperationName = ''op'',
      span_References = [?o], span_Flags = 0\<rparr>"
  have p1: "ParentSpanID ?s1 = 123"
    by (simp add: ParentSpanID_find is_parent_link_def ChildOf_def FollowsFrom_def)
  have p2: "ParentSpanID ?s2 = 0"
    by (simp add: ParentSpanID_find is_parent_link_def)
  have h1: "1 < length (span_References ?s1)
      \<and> ref_SpanID (span_References ?s1 ! 1) = ParentSpanID ?s1
      \<and> ref_TraceID (span_References ?s1 ! 1) = span_TraceID ?s1
      \<and> (\<forall>j<1. \<not> (ref_SpanID (span_References ?s1 ! j) = ParentSpanID ?s1
              \<and> ref_TraceID (span_References ?s1 ! j) = span_TraceID ?s1))"
    by (simp add: p1)
  have h2: "\<forall>r\<in>set (span_References ?s2).
          \<not> (ref_SpanID r = ParentSpanID ?s2 \<and> ref_TraceID r = span_TraceID ?s2)"
    by (simp add: p2)
  have m: "MaybeAddParentSpanID ?t 77 [?o] = [\<lparr>ref_TraceID = ?t, ref_SpanID = 77,
      ref_RefType = ChildOf\<rparr>, ?o]"
    by (simp add: MaybeAddParentSpanID_def NewChildOfRef_def)
  from ReplaceParentID_in_place_or_add [where k = 1 and s = ?s1 and new = 77, THEN conjunct1, THEN mp, OF h1,
      THEN conjunct1]
    ReplaceParentID_in_place_or_add [where s = ?s2 and new = 77, THEN conjunct2, THEN mp, OF h2]
  show ?thesis
    by (simp add: m)
qed

text \<open>
  Claim C10. The scan of \<open>ReplaceParentID\<close> does not look at the reference type. For a
  span with no parent link (so that the derived old parent id is zero) whose first
  reference with span id zero and the span's trace id is at index \<open>k\<close>, that reference is
  not of type \<open>ChildOf\<close>, \<open>ReplaceParentID\<close> sets its span id to the new id and adds no
  reference, and the span still has no derived parent afterwards.
\<close>

theorem ReplaceParentID_ignores_refType:
  assumes "\<forall>r\<in>set (span_References s). \<not> is_parent_link s r"
    and "k < length (span_References s)"
    and "ref_SpanID (span_References s ! k) = 0"
    and "ref_TraceID (span_References s ! k) = span_TraceID s"
    and "\<forall>j<k. \<not> (ref_SpanID (span_References s ! j) = 0
              \<and> ref_TraceID (span_References s ! j) = span_TraceID s)"
  shows "ParentSpanID s = 0
    \<and> ref_RefType (span_References s ! k) \<noteq> ChildOf
    \<and> ReplaceParentID s new =
        s\<lparr>span_References :=
          (span_References s)[k := (span_References s ! k)\<lparr>ref_SpanID := new\<rparr>]\<rparr>
    \<and> length (span_References (ReplaceParentID s new)) = length (span_References s)
    \<and> ref_RefType (span_References (ReplaceParentID s new) ! k)
        = ref_RefType (span_References s ! k)
    \<and> ParentSpanID (ReplaceParentID s new) = 0"
proof -
  let ?refs = "span_References s"
  let ?s' = "s\<lparr>span_References := ?refs[k := (?refs ! k)\<lparr>ref_SpanID := new\<rparr>]\<rparr>"
  have p0: "ParentSpanID s = 0"
    using assms(1) by (rule ParentSpanID_no_link)
  have "?refs ! k \<in> set ?refs"
    using assms(2) by simp
  with assms(1) have nl: "\<not> is_parent_link s (?refs ! k)"
    by blast
  with assms(4) have nc: "ref_RefType (?refs ! k) \<noteq> ChildOf"
    by (simp add: is_parent_link_def)
  have e: "ReplaceParentID s new = ?s'"
    using assms(2-5) by (intro ReplaceParentID_found) (simp_all add: p0)
  have "\<forall>r\<in>set (span_References ?s'). \<not> is_parent_link ?s' r"
  proof
    fix r
    assume "r \<in> set (span_References ?s')"
    then have "r \<in> insert ((?refs ! k)\<lparr>ref_SpanID := new\<rparr>) (set ?refs)"
      using set_update_subset_insert [of ?refs k] by auto
    then show "\<not> is_parent_link ?s' r"
      using assms(1) nc by (auto simp add: is_parent_link_def)
  qed
  then have "ParentSpanID ?s' = 0"
    by (rule ParentSpanID_no_link)
  with p0 nc e assms(2) show ?thesis
    by simp
qed

theorem ReplaceParentID_ignores_refType_witness:
  "ReplaceParentID \<lparr>span_TraceID = \<lparr>Low = 1, High = 0\<rparr>, span_SpanID = 5,
       span_OperationName = ''op'',
       span_References =
         [\<lparr>ref_TraceID = \<lparr>Low = 1, High = 0\<rparr>, ref_SpanID = 0, ref_RefType = FollowsFrom\<rparr>],
       span_Flags = 0\<rparr> 77
     = \<lparr>span_TraceID = \<lparr>Low = 1, High = 0\<rparr>, span_SpanID = 5,
       span_OperationName = ''op'',
       span_References =
         [\<lparr>ref_TraceID = \<lparr>Low = 1, High = 0\<rparr>, ref_SpanID = 77, ref_RefType = FollowsFrom\<rparr>],
       span_Flags = 0\<rparr>
   \<and> ParentSpanID (ReplaceParentID \<lparr>span_TraceID = \<lparr>Low = 1, High = 0\<rparr>, span_SpanID = 5,
       span_OperationName = ''op'',
       span_References =
         [\<lparr>ref_TraceID = \<lparr>Low = 1, High = 0\<rparr>, ref_SpanID = 0, ref_RefType = FollowsFrom\<rparr>],
       span_Flags = 0\<rparr> 77) = 0"
proof -
  let ?t = "\<lparr>Low = 1, High = 0\<rparr> :: TraceID"
  let ?f = "\<lparr>ref_TraceID = ?t, ref_SpanID = 0, ref_RefType = FollowsFrom\<rparr>"
  let ?s = "\<lparr>span_TraceID = ?t, span_SpanID = 5, span_OperationName = ''op'',
      span_References = [?f], span_Flags = 0\<rparr>"
  have h1: "\<forall>r\<in>set (span_References ?s). \<not> is_parent_link ?s r"
    by (simp add: is_parent_link_def ChildOf_def FollowsFrom_def)
  have h2: "0 < length (span_References ?s)"
    by simp
  have h3: "ref_SpanID (span_References ?s ! 0) = 0"
    by simp
  have h4: "ref_TraceID (span_References ?s ! 0) = span_TraceID ?s"
    by simp
  have h5: "\<forall>j<0. \<not> (ref_SpanID (span_References ?s ! j) = 0
              \<and> ref_TraceID (span_References ?s ! j) = span_TraceID ?s)"
    by simp
  note r = ReplaceParentID_ignores_refType [OF h1 h2 h3 h4 h5, where new = 77]
  have e: "ReplaceParentID ?s 77 = ?s\<lparr>span_References :=
      (span_References ?s)[0 := (span_References ?s ! 0)\<lparr>ref_SpanID := 77\<rparr>]\<rparr>"
    using r by blast
  have p: "ParentSpanID (ReplaceParentID ?s 77) = 0"
    using r by blast
  show ?thesis
  proof
    show "ReplaceParentID ?s 77 = \<lparr>span_TraceID = ?t, span_SpanID = 5,
       span_OperationName = ''op'',
       span_References = [\<lparr>ref_TraceID = ?t, ref_SpanID = 77, ref_RefType = FollowsFrom\<rparr>],
       span_Flags = 0\<rparr>"
      by (subst e) simp
    show "ParentSpanID (ReplaceParentID ?s 77) = 0"
      by (rule p)
  qed
qed

section \<open>The formatting model against the hexadecimal rendering\<close>

declare fmtInteger_digits.simps [simp del] fmtInteger_zeros.simps [simp del]
  lower_hex.simps [simp del]

lemma ldigits_nth: "k < 16 \<Longrightarrow> ldigits ! k = ''0123456789abcdef'' ! k"
proof -
  have "ldigits = ''0123456789abcdef'' @ ''x''"
    by (simp add: ldigits_def)
  moreover assume "k < 16"
  then have "(''0123456789abcdef'' @ ''x'') ! k = ''0123456789abcdef'' ! k"
    by (subst nth_append) simp
  ultimately show "ldigits ! k = ''0123456789abcdef'' ! k"
    by (simp only:)
qed

lemma unat_low_nibble: "unat ((u :: 64 word) AND 0xF) = unat u mod 16"
proof -
  have "u AND 0xF = take_bit 4 u"
    by (simp add: take_bit_eq_mask mask_eq_exp_minus_1)
  then show ?thesis
    by (simp add: take_bit_eq_mod unat_mod)
qed

lemma unat_drop_nibble: "unat (drop_bit 4 (u :: 64 word)) = unat u div 16"
  by (simp add: drop_bit_eq_div unat_div)

lemma fmtInteger_digits_lower_hex:
  "fmtInteger_digits u buf = lower_hex (unat u) @ buf"
proof (induction u buf rule: fmtInteger_digits.induct)
  case (1 u buf)
  show ?case
  proof (cases "16 \<le> u")
    case True
    then have ge: "\<not> unat u < 16"
      by (simp add: word_le_nat_alt)
    have "fmtInteger_digits u buf =
        fmtInteger_digits (drop_bit 4 u) (ldigits ! unat (u AND 0xF) # buf)"
      using True by (subst fmtInteger_digits.simps) simp
    also have "\<dots> = lower_hex (unat (drop_bit 4 u)) @ ldigits ! unat (u AND 0xF) # buf"
      using True by (rule "1.IH")
    also have "\<dots> = lower_hex (unat u div 16) @ ''0123456789abcdef'' ! (unat u mod 16) # buf"
      by (simp only: unat_low_nibble unat_drop_nibble ldigits_nth [of "unat u mod 16"]
          mod_less_divisor zero_less_numeral)
    also have "\<dots> = lower_hex (unat u) @ buf"
      using ge by (subst (2) lower_hex.simps) simp
    finally show ?thesis .
  next
    case False
    then have lt: "unat u < 16"
      by (simp add: word_le_nat_alt)
    have "fmtInteger_digits u buf = ldigits ! unat u # buf"
      using False by (subst fmtInteger_digits.simps) simp
    also have "\<dots> = lower_hex (unat u) @ buf"
      using lt by (subst lower_hex.simps) (simp add: ldigits_nth del: nth_Cons_numeral)
    finally show ?thesis .
  qed
qed

lemma fmtInteger_zeros_replicate:
  "fmtInteger_zeros prec buf = replicate (prec - length buf) (CHR ''0'') @ buf"
proof (induction prec buf rule: fmtInteger_zeros.induct)
  case (1 prec buf)
  show ?case
  proof (cases "length buf < prec")
    case True
    then have "prec - length buf = Suc (prec - length (CHR ''0'' # buf))"
      by simp
    then have "replicate (prec - length buf) (CHR ''0'') @ buf =
        replicate (prec - length (CHR ''0'' # buf)) (CHR ''0'') @ CHR ''0'' # buf"
      by (simp only: replicate_Suc replicate_app_Cons_same append_Cons)
    with True "1.IH" [OF True] show ?thesis
      by (subst fmtInteger_zeros.simps) simp
  next
    case False
    then show ?thesis
      by (subst fmtInteger_zeros.simps) simp
  qed
qed

lemma Sprintf_x_lower_hex: "Sprintf_x u = lower_hex (unat u)"
  by (simp add: Sprintf_x_def fmtInteger_def fmtInteger_digits_lower_hex
      fmtInteger_zeros_replicate)

lemma Sprintf_016x_zero_pad: "Sprintf_016x u = zero_pad 16 (lower_hex (unat u))"
  by (simp add: Sprintf_016x_def fmtInteger_def fmtInteger_digits_lower_hex
      fmtInteger_zeros_replicate zero_pad_def)

section \<open>The hexadecimal rendering: length, digits, value\<close>

lemma lower_hex_small: "n < 16 \<Longrightarrow> lower_hex n = [''0123456789abcdef'' ! n]"
  by (subst lower_hex.simps) simp

lemma lower_hex_large:
  "\<not> n < 16 \<Longrightarrow> lower_hex n = lower_hex (n div 16) @ [''0123456789abcdef'' ! (n mod 16)]"
  by (subst lower_hex.simps) simp

lemma lower_hex_nonempty: "lower_hex n \<noteq> []"
  by (cases "n < 16") (simp_all add: lower_hex_small lower_hex_large)

lemma lower_digit_table:
  "\<forall>d\<in>set [0..<16]. hex_digit_value (''0123456789abcdef'' ! d) = Some d
      \<and> ''0123456789abcdef'' ! d \<in> set ''0123456789abcdef''
      \<and> (0 < d \<longrightarrow> ''0123456789abcdef'' ! d \<noteq> CHR ''0'')"
  by code_simp

lemma lower_digit_value: "d < 16 \<Longrightarrow> hex_digit_value (''0123456789abcdef'' ! d) = Some d"
  using lower_digit_table by simp

lemma lower_digit_member: "d < 16 \<Longrightarrow> ''0123456789abcdef'' ! d \<in> set ''0123456789abcdef''"
  using lower_digit_table by simp

lemma lower_digit_nonzero: "d < 16 \<Longrightarrow> 0 < d \<Longrightarrow> ''0123456789abcdef'' ! d \<noteq> CHR ''0''"
  using lower_digit_table by simp

lemma lower_hex_length: "0 < k \<Longrightarrow> n < 16 ^ k \<Longrightarrow> length (lower_hex n) \<le> k"
proof (induction n arbitrary: k rule: lower_hex.induct)
  case (1 n)
  show ?case
  proof (cases "n < 16")
    case True
    with "1.prems" show ?thesis
      by (simp add: lower_hex_small)
  next
    case False
    with "1.prems" have "1 < k"
      by (cases "k = 1") auto
    then obtain j where k: "k = Suc j" and j: "0 < j"
      by (cases k) auto
    from "1.prems" k have "n div 16 < 16 ^ j"
      by (simp add: less_mult_imp_div_less mult.commute)
    with "1.IH" [OF False j] have "length (lower_hex (n div 16)) \<le> j" .
    with False k show ?thesis
      by (simp add: lower_hex_large)
  qed
qed

lemma lower_hex_length_word: "length (lower_hex (unat (u :: 64 word))) \<le> 16"
proof -
  have "unat u < 2 ^ 64"
    using unsigned_less [of u] by simp
  also have "(2 :: nat) ^ 64 = 16 ^ 16"
    by simp
  finally show ?thesis
    by (intro lower_hex_length) simp_all
qed

lemma lower_hex_charset: "list_all (\<lambda>c. c \<in> set ''0123456789abcdef'') (lower_hex n)"
proof (induction n rule: lower_hex.induct)
  case (1 n)
  show ?case
  proof (cases "n < 16")
    case True
    then show ?thesis
      using lower_digit_member [of n] by (simp add: lower_hex_small del: set_simps)
  next
    case False
    with "1.IH" lower_digit_member [of "n mod 16"] show ?thesis
      by (simp add: lower_hex_large del: set_simps)
  qed
qed

lemma hex_value_from_append:
  "hex_value_from m (a @ b) = hex_value_from (hex_value_from m a) b"
  by (simp add: hex_value_from_def)

lemma hex_value_from_single:
  "hex_digit_value c = Some d \<Longrightarrow> hex_value_from m [c] = 16 * m + d"
  by (simp add: hex_value_from_def)

lemma hex_value_from_lower_hex:
  "hex_value_from m (lower_hex n) = m * 16 ^ length (lower_hex n) + n"
proof (induction n arbitrary: m rule: lower_hex.induct)
  case (1 n)
  show ?case
  proof (cases "n < 16")
    case True
    then show ?thesis
      using hex_value_from_single [OF lower_digit_value [of n], of m]
      by (simp add: lower_hex_small)
  next
    case False
    have d: "hex_digit_value (''0123456789abcdef'' ! (n mod 16)) = Some (n mod 16)"
      by (rule lower_digit_value) simp
    have "hex_value_from m (lower_hex n) =
        16 * (m * 16 ^ length (lower_hex (n div 16)) + n div 16) + n mod 16"
      using False "1.IH" [OF False, of m]
      by (simp add: lower_hex_large hex_value_from_append hex_value_from_single [OF d])
    also have "\<dots> = m * 16 ^ length (lower_hex n) + n"
      using False by (simp add: lower_hex_large algebra_simps)
    finally show ?thesis .
  qed
qed

lemma hex_value_lower_hex: "hex_value (lower_hex n) = n"
  by (simp add: hex_value_def hex_value_from_lower_hex)

lemma hex_value_from_zeros: "hex_value_from 0 (replicate k (CHR ''0'')) = 0"
proof (induction k)
  case 0
  show ?case
    by (simp add: hex_value_from_def)
next
  case (Suc k)
  have z: "hex_digit_value (CHR ''0'') = Some 0"
    using lower_digit_value [of 0] by simp
  have "replicate (Suc k) (CHR ''0'') = replicate k (CHR ''0'') @ [CHR ''0'']"
    by (simp add: replicate_append_same)
  with Suc show ?case
    by (simp only: hex_value_from_append hex_value_from_single [OF z])
qed

lemma hex_value_zero_pad: "hex_value (zero_pad w (lower_hex n)) = n"
  by (simp add: hex_value_def zero_pad_def hex_value_from_append hex_value_from_zeros
      hex_value_from_lower_hex)

lemma length_zero_pad: "length s \<le> w \<Longrightarrow> length (zero_pad w s) = w"
  by (simp add: zero_pad_def)

lemma lower_hex_no_leading_zero: "0 < n \<Longrightarrow> hd (lower_hex n) \<noteq> CHR ''0''"
proof (induction n rule: lower_hex.induct)
  case (1 n)
  show ?case
  proof (cases "n < 16")
    case True
    with "1.prems" show ?thesis
      using lower_digit_nonzero [of n] by (simp add: lower_hex_small)
  next
    case False
    then have "0 < n div 16"
      by (simp add: div_greater_zero_iff)
    with "1.IH" [OF False] have "hd (lower_hex (n div 16)) \<noteq> CHR ''0''" .
    with False show ?thesis
      by (simp add: lower_hex_large lower_hex_nonempty)
  qed
qed

lemma lower_hex_zero: "lower_hex 0 = ''0''"
  by (simp add: lower_hex_small)

section \<open>\<open>ParseUint\<close> against the value of a hexadecimal string\<close>

lemma digit_of_byte_table:
  "\<forall>c::char. (case digit_of_byte (of_char c) of
        None \<Rightarrow> None
      | Some d \<Rightarrow> if 16 \<le> d then None else Some (unat d)) = hex_digit_value c"
  by code_simp

lemma hex_digit_value_range:
  "\<forall>c::char. (case hex_digit_value c of None \<Rightarrow> True | Some d \<Rightarrow> d < 16)"
  by code_simp

lemma unat_cutoff: "unat cutoff = 16 ^ 15"
  by (simp add: cutoff_def)

lemma maxVal_max: "maxVal = - 1"
  by (simp add: maxVal_def)

lemma unat_ucast_byte: "unat (ucast (d :: 8 word) :: 64 word) = unat d"
  by (simp add: unsigned_ucast_eq take_bit_nat_eq_self unsigned_less [of d, simplified] 
      less_trans [OF unsigned_less [of d, simplified]])

lemma hex_digit_Some:
  assumes "hex_digit_value c = Some d"
  obtains d' where "digit_of_byte (of_char c) = Some d'" and "\<not> 16 \<le> d'" and "unat d' = d"
    and "d < 16"
proof -
  from digit_of_byte_table have t: "(case digit_of_byte (of_char c) of
        None \<Rightarrow> None
      | Some d \<Rightarrow> if 16 \<le> d then None else Some (unat d)) = hex_digit_value c"
    by (rule spec)
  from hex_digit_value_range have "case hex_digit_value c of None \<Rightarrow> True | Some d \<Rightarrow> d < 16"
    by (rule spec)
  with assms have "d < 16"
    by simp
  with t assms that show thesis
    by (cases "digit_of_byte (of_char c)") (auto split: if_splits)
qed

lemma hex_digit_None:
  assumes "hex_digit_value c = None"
  shows "(case digit_of_byte (of_char c) of
        None \<Rightarrow> Inl ErrSyntax
      | Some d \<Rightarrow> if 16 \<le> d then Inl ErrSyntax else f d) = Inl ErrSyntax"
proof -
  from digit_of_byte_table have t: "(case digit_of_byte (of_char c) of
        None \<Rightarrow> None
      | Some d \<Rightarrow> if 16 \<le> d then None else Some (unat d)) = hex_digit_value c"
    by (rule spec)
  with assms show ?thesis
    by (cases "digit_of_byte (of_char c)") (auto split: if_splits)
qed

lemma hex_value_from_Cons:
  "hex_value_from m (c # cs) =
     hex_value_from (16 * m + (case hex_digit_value c of Some d \<Rightarrow> d | None \<Rightarrow> 0)) cs"
  by (simp add: hex_value_from_def)

lemma hex_value_from_bound:
  "m < 16 ^ j \<Longrightarrow> hex_value_from m cs < 16 ^ (j + length cs)"
proof (induction cs arbitrary: m j)
  case Nil
  then show ?case
    by (simp add: hex_value_from_def)
next
  case (Cons c cs)
  let ?d = "case hex_digit_value c of Some d \<Rightarrow> d | None \<Rightarrow> 0"
  from hex_digit_value_range have "case hex_digit_value c of None \<Rightarrow> True | Some d \<Rightarrow> d < 16"
    by (rule spec)
  then have "?d < 16"
    by (cases "hex_digit_value c") simp_all
  moreover from Cons.prems have "16 * (m + 1) \<le> 16 * 16 ^ j"
    by (intro mult_le_mono2) simp
  ultimately have "16 * m + ?d < 16 ^ Suc j"
    by simp
  then have "hex_value_from (16 * m + ?d) cs < 16 ^ (Suc j + length cs)"
    by (rule Cons.IH)
  then show ?case
    by (simp add: hex_value_from_Cons)
qed

lemma ParseUint_loop_step:
  assumes d: "digit_of_byte (of_char c) = Some d'" "\<not> 16 \<le> d'"
    and n: "unat n < 16 ^ 15"
  shows "ParseUint_loop n (c # cs) = ParseUint_loop (n * 16 + ucast d') cs"
    and "unat (n * 16 + ucast d') = 16 * unat n + unat d'"
proof -
  from d(2) have dl: "unat d' < 16"
    by (simp add: word_le_nat_alt)
  from n have nc: "\<not> cutoff \<le> n"
    by (simp add: word_le_nat_alt unat_cutoff)
  from n have "unat n * unat (16 :: 64 word) < 2 ^ LENGTH(64)"
    by simp
  then have m: "unat (n * 16) = unat n * 16"
    by (simp add: unat_mult_lem [THEN iffD1])
  from n dl have "unat (n * 16) + unat (ucast d' :: 64 word) < 2 ^ LENGTH(64)"
    by (simp add: m unat_ucast_byte)
  then have a: "unat (n * 16 + ucast d') = unat (n * 16) + unat (ucast d' :: 64 word)"
    by (simp add: unat_add_lem [THEN iffD1])
  then show u: "unat (n * 16 + ucast d') = 16 * unat n + unat d'"
    by (simp add: m unat_ucast_byte)
  have "\<not> n * 16 + ucast d' < n * 16"
    by (simp add: word_less_nat_alt a)
  moreover have "\<not> maxVal < n * 16 + ucast d'"
    unfolding maxVal_max by (rule word_n1_ge [THEN leD])
  ultimately show "ParseUint_loop n (c # cs) = ParseUint_loop (n * 16 + ucast d') cs"
    using d nc by (simp add: Let_def)
qed

lemma ParseUint_loop_hex:
  assumes "unat n < 16 ^ j" and "j + length cs \<le> 16"
  shows "ParseUint_loop n cs =
     (if list_all (\<lambda>c. hex_digit_value c \<noteq> None) cs
      then Inr (of_nat (hex_value_from (unat n) cs)) else Inl ErrSyntax)"
  using assms
proof (induction cs arbitrary: n j)
  case Nil
  then show ?case
    by (simp add: hex_value_from_def)
next
  case (Cons c cs)
  show ?case
  proof (cases "hex_digit_value c")
    case None
    then show ?thesis
      using hex_digit_None [OF None] by simp
  next
    case (Some d)
    then obtain d' where d': "digit_of_byte (of_char c) = Some d'" "\<not> 16 \<le> d'" "unat d' = d"
      by (rule hex_digit_Some)
    from Cons.prems have "j \<le> 15"
      by simp
    then have "(16 :: nat) ^ j \<le> 16 ^ 15"
      by (intro power_increasing) simp_all
    with Cons.prems have n15: "unat n < 16 ^ 15"
      by simp
    note step = ParseUint_loop_step [OF d'(1,2) n15]
    from Cons.prems d'(2) have "16 * (unat n + 1) \<le> 16 * 16 ^ j" and "unat d' < 16"
      by (simp_all add: word_le_nat_alt)
    then have b: "unat (n * 16 + ucast d') < 16 ^ Suc j"
      by (simp add: step(2))
    from Cons.prems have l: "Suc j + length cs \<le> 16"
      by simp
    have "ParseUint_loop n (c # cs) = ParseUint_loop (n * 16 + ucast d') cs"
      by (rule step(1))
    also have "\<dots> = (if list_all (\<lambda>c. hex_digit_value c \<noteq> None) cs
      then Inr (of_nat (hex_value_from (unat (n * 16 + ucast d')) cs)) else Inl ErrSyntax)"
      using b l by (rule Cons.IH)
    also have "\<dots> = (if list_all (\<lambda>c. hex_digit_value c \<noteq> None) (c # cs)
      then Inr (of_nat (hex_value_from (unat n) (c # cs))) else Inl ErrSyntax)"
      by (simp add: Some step(2) d'(3) hex_value_from_Cons)
    finally show ?thesis .
  qed
qed

lemma ParseUint_short:
  assumes "length s \<le> 16"
  shows "ParseUint s =
     (if is_hex s then Inr (of_nat (hex_value s)) else Inl (NumError ''ParseUint'' s ErrSyntax))"
proof (cases "s = []")
  case True
  then show ?thesis
    by (simp add: ParseUint_def is_hex_def)
next
  case False
  have "ParseUint_loop 0 s =
     (if list_all (\<lambda>c. hex_digit_value c \<noteq> None) s
      then Inr (of_nat (hex_value_from (unat (0 :: 64 word)) s)) else Inl ErrSyntax)"
    using assms by (intro ParseUint_loop_hex [where j = 0]) simp_all
  with False show ?thesis
    by (simp add: ParseUint_def is_hex_def hex_value_def)
qed

lemma hex_value_short: "length s \<le> 16 \<Longrightarrow> hex_value s < 2 ^ 64"
proof -
  assume "length s \<le> 16"
  then have "(16 :: nat) ^ length s \<le> 16 ^ 16"
    by (intro power_increasing) simp_all
  moreover have "hex_value_from 0 s < 16 ^ (0 + length s)"
    by (rule hex_value_from_bound) simp
  ultimately show ?thesis
    by (simp add: hex_value_def)
qed

lemma lower_charset_valid:
  "\<forall>c\<in>set ''0123456789abcdef''. hex_digit_value c \<noteq> None"
  by code_simp

lemma is_hex_lower_hex: "is_hex (lower_hex n)"
proof -
  have "list_all (\<lambda>c. hex_digit_value c \<noteq> None) (lower_hex n)"
    using lower_hex_charset [of n] lower_charset_valid
    by (simp only: list_all_iff) blast
  then show ?thesis
    by (simp add: is_hex_def lower_hex_nonempty)
qed

lemma list_all_zero_pad:
  "P (CHR ''0'') \<Longrightarrow> list_all P s \<Longrightarrow> list_all P (zero_pad w s)"
  by (auto simp add: zero_pad_def list_all_iff)

lemma is_hex_zero_pad: "is_hex (zero_pad w (lower_hex n))"
proof -
  have z: "hex_digit_value (CHR ''0'') \<noteq> None"
    using lower_charset_valid by simp
  have "list_all (\<lambda>c. hex_digit_value c \<noteq> None) (lower_hex n)"
    using is_hex_lower_hex [of n] by (simp add: is_hex_def)
  with z have "list_all (\<lambda>c. hex_digit_value c \<noteq> None) (zero_pad w (lower_hex n))"
    by (rule list_all_zero_pad)
  moreover have "zero_pad w (lower_hex n) \<noteq> []"
    by (simp add: zero_pad_def lower_hex_nonempty)
  ultimately show ?thesis
    by (simp add: is_hex_def)
qed

lemma ParseUint_lower_hex: "ParseUint (lower_hex (unat (u :: 64 word))) = Inr u"
  by (simp add: ParseUint_short lower_hex_length_word is_hex_lower_hex hex_value_lower_hex)

lemma length_zero_pad_word: "length (zero_pad 16 (lower_hex (unat (u :: 64 word)))) = 16"
  by (simp add: length_zero_pad lower_hex_length_word)

lemma ParseUint_zero_pad: "ParseUint (zero_pad 16 (lower_hex (unat (u :: 64 word)))) = Inr u"
  by (simp add: ParseUint_short length_zero_pad_word is_hex_zero_pad hex_value_zero_pad)

section \<open>The TraceID and SpanID codecs\<close>

text \<open>
  Claim C1. For all 64-bit \<open>high\<close> and \<open>low\<close>, parsing the text rendering of the trace id
  \<open>{high, low}\<close> succeeds and returns that trace id.
\<close>

theorem TraceID_round_trip:
  "TraceIDFromString (TraceID_String \<lparr>Low = low, High = high\<rparr>) = Inr \<lparr>Low = low, High = high\<rparr>"
proof (cases "high = 0")
  case True
  then have "TraceID_String \<lparr>Low = low, High = high\<rparr> = lower_hex (unat low)"
    by (simp add: TraceID_String_def Sprintf_x_lower_hex)
  with True show ?thesis
    using lower_hex_length_word [of low]
    by (simp add: TraceIDFromString_def ParseUint_lower_hex)
next
  case False
  let ?h = "lower_hex (unat high)" and ?l = "zero_pad 16 (lower_hex (unat low))"
  have s: "TraceID_String \<lparr>Low = low, High = high\<rparr> = ?h @ ?l"
    using False by (simp add: TraceID_String_def Sprintf_x_lower_hex Sprintf_016x_zero_pad)
  have len: "length (?h @ ?l) = length ?h + 16"
    by (simp add: length_zero_pad_word)
  have h1: "0 < length ?h"
    by (simp add: lower_hex_nonempty)
  have h16: "length ?h \<le> 16"
    by (rule lower_hex_length_word)
  have t: "take (length (?h @ ?l) - 16) (?h @ ?l) = ?h"
    by (simp only: len) simp
  have d: "drop (length (?h @ ?l) - 16) (?h @ ?l) = ?l"
    by (simp only: len) simp
  have "TraceIDFromString (?h @ ?l) =
      (case ParseUint (take (length (?h @ ?l) - 16) (?h @ ?l)) of
           Inl err \<Rightarrow> Inl err
         | Inr hi \<Rightarrow>
             (case ParseUint (drop (length (?h @ ?l) - 16) (?h @ ?l)) of
                Inl err \<Rightarrow> Inl err
              | Inr lo \<Rightarrow> Inr \<lparr>Low = lo, High = hi\<rparr>))"
    using h1 h16 unfolding TraceIDFromString_def Let_def by (simp only: len) simp
  also have "\<dots> = Inr \<lparr>Low = low, High = high\<rparr>"
    by (simp only: t d ParseUint_lower_hex ParseUint_zero_pad) simp
  finally show ?thesis
    by (simp only: s)
qed

text \<open>
  Claim C5. \<open>String\<close> of a trace id is the lowercase hexadecimal rendering of \<open>low\<close> when
  \<open>high\<close> is zero, and otherwise the rendering of \<open>high\<close> followed by that of \<open>low\<close> padded
  with zeros to exactly 16 digits. The renderings consist of the digits \<open>0\<close> to \<open>9\<close> and
  \<open>a\<close> to \<open>f\<close>, denote the value rendered, and the unpadded ones have no leading zero
  (zero itself is rendered as \<open>0\<close>).
\<close>

theorem TraceID_String_rendering:
  "TraceID_String t =
     (if High t = 0 then lower_hex (unat (Low t))
      else lower_hex (unat (High t)) @ zero_pad 16 (lower_hex (unat (Low t))))
   \<and> list_all (\<lambda>c. c \<in> set ''0123456789abcdef'') (TraceID_String t)
   \<and> hex_value (lower_hex (unat (Low t))) = unat (Low t)
   \<and> hex_value (lower_hex (unat (High t))) = unat (High t)
   \<and> hex_value (zero_pad 16 (lower_hex (unat (Low t)))) = unat (Low t)
   \<and> length (zero_pad 16 (lower_hex (unat (Low t)))) = 16
   \<and> (Low t = 0 \<and> lower_hex (unat (Low t)) = ''0''
        \<or> Low t \<noteq> 0 \<and> hd (lower_hex (unat (Low t))) \<noteq> CHR ''0'')
   \<and> (High t \<noteq> 0 \<longrightarrow> hd (lower_hex (unat (High t))) \<noteq> CHR ''0'')"
proof (intro conjI impI)
  show e: "TraceID_String t =
     (if High t = 0 then lower_hex (unat (Low t))
      else lower_hex (unat (High t)) @ zero_pad 16 (lower_hex (unat (Low t))))"
    by (simp add: TraceID_String_def Sprintf_x_lower_hex Sprintf_016x_zero_pad)
  have "list_all (\<lambda>c. c \<in> set ''0123456789abcdef'')
      (zero_pad 16 (lower_hex (unat (Low t))))"
    using lower_hex_charset [of "unat (Low t)"]
    by (intro list_all_zero_pad) simp_all
  then show "list_all (\<lambda>c. c \<in> set ''0123456789abcdef'') (TraceID_String t)"
    using lower_hex_charset [of "unat (Low t)"] lower_hex_charset [of "unat (High t)"]
    by (simp add: e del: set_simps)
  show "hex_value (lower_hex (unat (Low t))) = unat (Low t)"
    by (rule hex_value_lower_hex)
  show "hex_value (lower_hex (unat (High t))) = unat (High t)"
    by (rule hex_value_lower_hex)
  show "hex_value (zero_pad 16 (lower_hex (unat (Low t)))) = unat (Low t)"
    by (rule hex_value_zero_pad)
  show "length (zero_pad 16 (lower_hex (unat (Low t)))) = 16"
    by (rule length_zero_pad_word)
  show "Low t = 0 \<and> lower_hex (unat (Low t)) = ''0''
        \<or> Low t \<noteq> 0 \<and> hd (lower_hex (unat (Low t))) \<noteq> CHR ''0''"
  proof (cases "Low t = 0")
    case True
    then show ?thesis
      by (simp add: lower_hex_zero)
  next
    case False
    then have "0 < unat (Low t)"
      by (simp add: unat_gt_0)
    with False show ?thesis
      by (simp add: lower_hex_no_leading_zero)
  qed
next
  assume "High t \<noteq> 0"
  then have "0 < unat (High t)"
    by (simp add: unat_gt_0)
  then show "hd (lower_hex (unat (High t))) \<noteq> CHR ''0''"
    by (rule lower_hex_no_leading_zero)
qed

theorem TraceID_String_rendering_witness:
  "TraceID_String \<lparr>Low = 0x43, High = 42\<rparr> = ''2a0000000000000043''
   \<and> TraceID_String \<lparr>Low = 0x42, High = 0\<rparr> = ''42''
   \<and> hd (lower_hex 42) \<noteq> CHR ''0''"
proof -
  have l1: "lower_hex 67 = ''43''"
    by code_simp
  have l2: "lower_hex 42 = ''2a''"
    by code_simp
  have l3: "lower_hex 66 = ''42''"
    by code_simp
  have z: "zero_pad 16 ''43'' = ''0000000000000043''"
    by code_simp
  have n: "High \<lparr>Low = 0x43, High = 42\<rparr> \<noteq> 0"
    by simp
  note R = TraceID_String_rendering
  from R [of "\<lparr>Low = 0x43, High = 42\<rparr>", THEN conjunct1]
    R [of "\<lparr>Low = 0x42, High = 0\<rparr>", THEN conjunct1]
    R [of "\<lparr>Low = 0x43, High = 42\<rparr>", THEN conjunct2, THEN conjunct2, THEN conjunct2,
      THEN conjunct2, THEN conjunct2, THEN conjunct2, THEN conjunct2, THEN mp, OF n]
  show ?thesis
    by (simp add: l1 l2 l3 z)
qed

text \<open>
  Claim C6. \<open>TraceIDFromString\<close> fails with the length error on more than 32 characters;
  on 17 to 32 characters it splits at \<open>len(s) - 16\<close>, and the result is a syntax error
  naming the first half that is not a valid hexadecimal string, or else the trace id whose
  \<open>high\<close> is the value of the prefix and whose \<open>low\<close> is the value of the suffix; on at
  most 16 characters the whole string gives \<open>low\<close>, with \<open>high = 0\<close>. \<open>SpanIDFromString\<close>
  fails with the length error on more than 16 characters and otherwise gives the value of
  the string, or a syntax error when it is not valid hexadecimal. The values fit 64 bits.
\<close>

theorem FromString_length_and_format:
  "(32 < length s \<longrightarrow>
      TraceIDFromString s =
        Inl (Errorf (''TraceID cannot be longer than 32 hex characters: '' @ s)))
   \<and> (16 < length s \<and> length s \<le> 32 \<longrightarrow>
      TraceIDFromString s =
        (if \<not> is_hex (take (length s - 16) s)
           then Inl (NumError ''ParseUint'' (take (length s - 16) s) ErrSyntax)
         else if \<not> is_hex (drop (length s - 16) s)
           then Inl (NumError ''ParseUint'' (drop (length s - 16) s) ErrSyntax)
         else Inr \<lparr>Low = of_nat (hex_value (drop (length s - 16) s)),
                   High = of_nat (hex_value (take (length s - 16) s))\<rparr>)
      \<and> hex_value (take (length s - 16) s) < 2 ^ 64
      \<and> hex_value (drop (length s - 16) s) < 2 ^ 64)
   \<and> (length s \<le> 16 \<longrightarrow>
      TraceIDFromString s =
        (if is_hex s then Inr \<lparr>Low = of_nat (hex_value s), High = 0\<rparr>
         else Inl (NumError ''ParseUint'' s ErrSyntax))
      \<and> SpanIDFromString s =
        (if is_hex s then Inr (of_nat (hex_value s))
         else Inl (NumError ''ParseUint'' s ErrSyntax))
      \<and> hex_value s < 2 ^ 64)
   \<and> (16 < length s \<longrightarrow>
      SpanIDFromString s =
        Inl (Errorf (''SpanID cannot be longer than 16 hex characters: '' @ s)))"
proof (intro conjI impI)
  assume "32 < length s"
  then show "TraceIDFromString s =
        Inl (Errorf (''TraceID cannot be longer than 32 hex characters: '' @ s))"
    by (simp add: TraceIDFromString_def)
next
  assume a: "16 < length s \<and> length s \<le> 32"
  let ?hi = "take (length s - 16) s" and ?lo = "drop (length s - 16) s"
  from a have lh: "length ?hi \<le> 16" and ll: "length ?lo \<le> 16"
    by auto
  from a have "TraceIDFromString s =
      (case ParseUint ?hi of
           Inl err \<Rightarrow> Inl err
         | Inr hi \<Rightarrow>
             (case ParseUint ?lo of
                Inl err \<Rightarrow> Inl err
              | Inr lo \<Rightarrow> Inr \<lparr>Low = lo, High = hi\<rparr>))"
    by (simp add: TraceIDFromString_def Let_def)
  then show "TraceIDFromString s =
        (if \<not> is_hex ?hi then Inl (NumError ''ParseUint'' ?hi ErrSyntax)
         else if \<not> is_hex ?lo then Inl (NumError ''ParseUint'' ?lo ErrSyntax)
         else Inr \<lparr>Low = of_nat (hex_value ?lo), High = of_nat (hex_value ?hi)\<rparr>)"
    by (simp only: ParseUint_short [OF lh] ParseUint_short [OF ll]) simp
  show "hex_value ?hi < 2 ^ 64"
    using lh by (rule hex_value_short)
  show "hex_value ?lo < 2 ^ 64"
    using ll by (rule hex_value_short)
next
  assume a: "length s \<le> 16"
  then show "TraceIDFromString s =
        (if is_hex s then Inr \<lparr>Low = of_nat (hex_value s), High = 0\<rparr>
         else Inl (NumError ''ParseUint'' s ErrSyntax))"
    by (simp add: TraceIDFromString_def ParseUint_short)
  from a show "SpanIDFromString s =
        (if is_hex s then Inr (of_nat (hex_value s))
         else Inl (NumError ''ParseUint'' s ErrSyntax))"
    by (simp add: SpanIDFromString_def ParseUint_short)
  from a show "hex_value s < 2 ^ 64"
    by (rule hex_value_short)
next
  assume "16 < length s"
  then show "SpanIDFromString s =
        Inl (Errorf (''SpanID cannot be longer than 16 hex characters: '' @ s))"
    by (simp add: SpanIDFromString_def)
qed

theorem FromString_length_and_format_witness:
  "TraceIDFromString ''000000000000000000000000000000000''
     = Inl (Errorf (''TraceID cannot be longer than 32 hex characters: ''
          @ ''000000000000000000000000000000000''))
   \<and> TraceIDFromString ''2A0000000000000043'' = Inr \<lparr>Low = 0x43, High = 42\<rparr>
   \<and> TraceIDFromString ''2g0000000000000043'' = Inl (NumError ''ParseUint'' ''2g'' ErrSyntax)
   \<and> TraceIDFromString ''ff'' = Inr \<lparr>Low = 255, High = 0\<rparr>
   \<and> TraceIDFromString '''' = Inl (NumError ''ParseUint'' '''' ErrSyntax)
   \<and> SpanIDFromString ''43'' = Inr 0x43
   \<and> SpanIDFromString ''0x43'' = Inl (NumError ''ParseUint'' ''0x43'' ErrSyntax)
   \<and> SpanIDFromString ''00000000000000043''
     = Inl (Errorf (''SpanID cannot be longer than 16 hex characters: ''
          @ ''00000000000000043''))"
proof -
  have l33: "32 < length ''000000000000000000000000000000000''"
    by simp
  have l18: "16 < length ''2A0000000000000043'' \<and> length ''2A0000000000000043'' \<le> 32"
    by simp
  have l18': "16 < length ''2g0000000000000043'' \<and> length ''2g0000000000000043'' \<le> 32"
    by simp
  have l2: "length ''ff'' \<le> 16"
    by simp
  have l0: "length '''' \<le> 16"
    by simp
  have l2': "length ''43'' \<le> 16"
    by simp
  have l4: "length ''0x43'' \<le> 16"
    by simp
  have l17: "16 < length ''00000000000000043''"
    by simp
  have v: "is_hex ''2A''" "is_hex ''0000000000000043''" "\<not> is_hex ''2g''" "is_hex ''ff''"
    "\<not> is_hex ''''" "is_hex ''43''" "\<not> is_hex ''0x43''"
    by code_simp+
  have h: "hex_value ''2A'' = 42" "hex_value ''0000000000000043'' = 67" "hex_value ''ff'' = 255"
    "hex_value ''43'' = 67"
    by code_simp+
  note T = FromString_length_and_format
  from T [of "''000000000000000000000000000000000''", THEN conjunct1, THEN mp, OF l33]
    T [of "''2A0000000000000043''", THEN conjunct2, THEN conjunct1, THEN mp, OF l18,
      THEN conjunct1]
    T [of "''2g0000000000000043''", THEN conjunct2, THEN conjunct1, THEN mp, OF l18',
      THEN conjunct1]
    T [of "''ff''", THEN conjunct2, THEN conjunct2, THEN conjunct1, THEN mp, OF l2,
      THEN conjunct1]
    T [of "''''", THEN conjunct2, THEN conjunct2, THEN conjunct1, THEN mp, OF l0,
      THEN conjunct1]
    T [of "''43''", THEN conjunct2, THEN conjunct2, THEN conjunct1, THEN mp, OF l2',
      THEN conjunct2, THEN conjunct1]
    T [of "''0x43''", THEN conjunct2, THEN conjunct2, THEN conjunct1, THEN mp, OF l4,
      THEN conjunct2, THEN conjunct1]
    T [of "''00000000000000043''", THEN conjunct2, THEN conjunct2, THEN conjunct2, THEN mp,
      OF l17]
  show ?thesis
    by (simp add: v h)
qed

text \<open>
  Claim C7. \<open>MarshalText\<close> and \<open>UnmarshalText\<close> of a trace id fail for every input, with
  an error that names the \<open>jsonpb\<close> codec to use instead (and \<open>UnmarshalText\<close> leaves the
  trace id as it was). \<open>MarshalText\<close> of a span id succeeds with the hexadecimal rendering
  of the value, which is what \<open>MarshalJSONPB\<close> emits between double quotes and what
  \<open>SpanIDFromString\<close> reads back.
\<close>

theorem MarshalText_paths:
  "TraceID_MarshalText t =
     Inl (Errorf ''unsupported method TraceID.MarshalText; please use github.com/gogo/protobuf/jsonpb for marshalling'')
   \<and> TraceID_UnmarshalText t text' =
     (t, Some (Errorf ''unsupported method TraceID.UnmarshalText; please use github.com/gogo/protobuf/jsonpb for marshalling''))
   \<and> SpanID_MarshalText s = Inr (lower_hex (unat s))
   \<and> SpanID_MarshalJSONPB s = Inr ([CHR 0x22] @ lower_hex (unat s) @ [CHR 0x22])
   \<and> SpanIDFromString (lower_hex (unat s)) = Inr s"
proof -
  have "\<not> 16 < length (lower_hex (unat s))"
    using lower_hex_length_word [of s] by simp
  then show ?thesis
    by (simp add: TraceID_MarshalText_def TraceID_UnmarshalText_def SpanID_MarshalText_def
        SpanID_MarshalJSONPB_def SpanID_String_def Sprintf_x_lower_hex SpanIDFromString_def
        ParseUint_lower_hex)
qed

lemma quoted_inner:
  assumes "3 \<le> length b"
  shows "take (length b - 1 - 1) (drop 1 b) = butlast (tl b)"
    and "b ! 0 = hd b" and "b ! (length b - 1) = last b"
proof -
  from assms have ne: "b \<noteq> []"
    by auto
  show "take (length b - 1 - 1) (drop 1 b) = butlast (tl b)"
    by (simp add: butlast_conv_take drop_Suc)
  from ne show "b ! 0 = hd b"
    by (simp add: hd_conv_nth)
  from ne show "b ! (length b - 1) = last b"
    by (simp add: last_conv_nth)
qed

text \<open>
  Claim C8. \<open>UnmarshalJSONPB\<close> of a trace id and of a span id fail with their own format
  errors, leaving the receiver as it was and whatever the bytes in between are, when the
  input has fewer than 3 bytes or does not both start and end with a double quote; only an
  input of at least 3 bytes enclosed in double quotes has its inner part handed to the
  \<open>FromString\<close> parser, whose result decides the outcome.
\<close>

theorem UnmarshalJSONPB_checks_quotes_first:
  "(length b < 3 \<longrightarrow>
      TraceID_UnmarshalJSONPB t b =
        (t, Some (Errorf (''TraceID JSON string cannot be shorter than 3 chars: '' @ b)))
      \<and> SpanID_UnmarshalJSONPB s b =
        (s, Some (Errorf (''SpanID JSON string cannot be shorter than 3 chars: '' @ b))))
   \<and> (3 \<le> length b \<and> (hd b \<noteq> CHR 0x22 \<or> last b \<noteq> CHR 0x22) \<longrightarrow>
      TraceID_UnmarshalJSONPB t b =
        (t, Some (Errorf (''TraceID JSON string must be enclosed in quotes: '' @ b)))
      \<and> SpanID_UnmarshalJSONPB s b =
        (s, Some (Errorf (''SpanID JSON string must be enclosed in quotes: '' @ b))))
   \<and> (3 \<le> length b \<and> hd b = CHR 0x22 \<and> last b = CHR 0x22 \<longrightarrow>
      b = [CHR 0x22] @ butlast (tl b) @ [CHR 0x22]
      \<and> TraceID_UnmarshalJSONPB t b =
        (case TraceIDFromString (butlast (tl b)) of
           Inl err \<Rightarrow> (t, Some err)
         | Inr q \<Rightarrow> (q, None))
      \<and> SpanID_UnmarshalJSONPB s b =
        (case SpanIDFromString (butlast (tl b)) of
           Inl err \<Rightarrow> (s, Some err)
         | Inr q \<Rightarrow> (q, None)))"
proof (intro conjI impI)
  assume "length b < 3"
  then show "TraceID_UnmarshalJSONPB t b =
        (t, Some (Errorf (''TraceID JSON string cannot be shorter than 3 chars: '' @ b)))"
    and "SpanID_UnmarshalJSONPB s b =
        (s, Some (Errorf (''SpanID JSON string cannot be shorter than 3 chars: '' @ b)))"
    by (simp_all add: TraceID_UnmarshalJSONPB_def SpanID_UnmarshalJSONPB_def)
next
  assume a: "3 \<le> length b \<and> (hd b \<noteq> CHR 0x22 \<or> last b \<noteq> CHR 0x22)"
  then have l3: "3 \<le> length b"
    by simp
  from a have l: "\<not> length b < 3" and q: "b ! 0 \<noteq> CHR 0x22 \<or> b ! (length b - 1) \<noteq> CHR 0x22"
    by (simp_all only: quoted_inner(2,3) [OF l3]) simp
  from l q show "TraceID_UnmarshalJSONPB t b =
        (t, Some (Errorf (''TraceID JSON string must be enclosed in quotes: '' @ b)))"
    unfolding TraceID_UnmarshalJSONPB_def by (simp only: if_True if_False)
  from l q show "SpanID_UnmarshalJSONPB s b =
        (s, Some (Errorf (''SpanID JSON string must be enclosed in quotes: '' @ b)))"
    unfolding SpanID_UnmarshalJSONPB_def by (simp only: if_True if_False)
next
  assume a: "3 \<le> length b \<and> hd b = CHR 0x22 \<and> last b = CHR 0x22"
  then have l3: "3 \<le> length b"
    by simp
  from a have l: "\<not> length b < 3" and q: "\<not> (b ! 0 \<noteq> CHR 0x22 \<or> b ! (length b - 1) \<noteq> CHR 0x22)"
    by (simp_all only: quoted_inner(2,3) [OF l3]) simp_all
  have i: "take (length b - 1 - 1) (drop 1 b) = butlast (tl b)"
    using l3 by (rule quoted_inner(1))
  from l3 have ne: "b \<noteq> []" and ne': "tl b \<noteq> []"
    by (cases b; auto)+
  have "b = hd b # tl b"
    using ne by simp
  also have "tl b = butlast (tl b) @ [last (tl b)]"
    using ne' by simp
  also have "last (tl b) = last b"
    using ne ne' by (simp add: last_tl)
  finally show "b = [CHR 0x22] @ butlast (tl b) @ [CHR 0x22]"
    using a by simp
  from l q show "TraceID_UnmarshalJSONPB t b =
        (case TraceIDFromString (butlast (tl b)) of
           Inl err \<Rightarrow> (t, Some err)
         | Inr q \<Rightarrow> (q, None))"
    unfolding TraceID_UnmarshalJSONPB_def by (simp only: if_True if_False i)
  from l q show "SpanID_UnmarshalJSONPB s b =
        (case SpanIDFromString (butlast (tl b)) of
           Inl err \<Rightarrow> (s, Some err)
         | Inr q \<Rightarrow> (q, None))"
    unfolding SpanID_UnmarshalJSONPB_def by (simp only: if_True if_False i)
qed

theorem UnmarshalJSONPB_checks_quotes_first_witness:
  "TraceID_UnmarshalJSONPB \<lparr>Low = 7, High = 8\<rparr> [CHR 0x22, CHR 0x22]
     = (\<lparr>Low = 7, High = 8\<rparr>,
        Some (Errorf (''TraceID JSON string cannot be shorter than 3 chars: ''
          @ [CHR 0x22, CHR 0x22])))
   \<and> SpanID_UnmarshalJSONPB 9 ''2a2a''
     = (9, Some (Errorf (''SpanID JSON string must be enclosed in quotes: '' @ ''2a2a'')))
   \<and> TraceID_UnmarshalJSONPB \<lparr>Low = 7, High = 8\<rparr> [CHR 0x22, CHR ''2'', CHR ''a'', CHR 0x22]
     = (\<lparr>Low = 42, High = 0\<rparr>, None)
   \<and> SpanID_UnmarshalJSONPB 9 [CHR 0x22, CHR ''z'', CHR 0x22]
     = (9, Some (NumError ''ParseUint'' ''z'' ErrSyntax))"
proof -
  let ?t = "\<lparr>Low = 7, High = 8\<rparr> :: TraceID"
  let ?b2 = "[CHR 0x22, CHR 0x22]"
  let ?b4 = "[CHR 0x22, CHR ''2'', CHR ''a'', CHR 0x22]"
  let ?b3 = "[CHR 0x22, CHR ''z'', CHR 0x22]"
  have h1: "length ?b2 < 3"
    by simp
  have h2: "3 \<le> length ''2a2a'' \<and> (hd ''2a2a'' \<noteq> CHR 0x22 \<or> last ''2a2a'' \<noteq> CHR 0x22)"
    by simp
  have h3: "3 \<le> length ?b4 \<and> hd ?b4 = CHR 0x22 \<and> last ?b4 = CHR 0x22"
    by simp
  have h4: "3 \<le> length ?b3 \<and> hd ?b3 = CHR 0x22 \<and> last ?b3 = CHR 0x22"
    by simp
  have p1: "TraceIDFromString ''2a'' = Inr \<lparr>Low = 42, High = 0\<rparr>"
    by code_simp
  have p2: "SpanIDFromString ''z'' = Inl (NumError ''ParseUint'' ''z'' ErrSyntax)"
    by code_simp
  note T = UnmarshalJSONPB_checks_quotes_first
  from T [where b = ?b2 and t = ?t, THEN conjunct1, THEN mp, OF h1, THEN conjunct1]
    T [where b = "''2a2a''" and s = 9, THEN conjunct2, THEN conjunct1, THEN mp, OF h2,
      THEN conjunct2]
    T [where b = ?b4 and t = ?t, THEN conjunct2, THEN conjunct2, THEN mp, OF h3,
      THEN conjunct2, THEN conjunct1]
    T [where b = ?b3 and s = 9, THEN conjunct2, THEN conjunct2, THEN mp, OF h4,
      THEN conjunct2, THEN conjunct2]
  show ?thesis
    by (simp add: p1 p2)
qed

end
